(* ===== verification/Prelude.thy ===== *)
theory Prelude
  imports Main "HOL-Library.Word"
begin

text \<open>
  Shared vocabulary of the development: the machine types of the kernel's C code
  (\<open>u8int\<close>, \<open>u16int\<close>, \<open>u32int\<close> of \<^verbatim>\<open>types.h\<close>, the signed 8-bit \<open>char\<close> and
  the 32-bit \<open>int\<close> of i386 GCC), undefined behaviour as an explicit error value,
  C's truncating remainder, and bounds-checked array access.  Every component
  theory imports this one.
\<close>

unbundle bit_operations_syntax

named_theorems c_simps "evaluation rules of the modelled C primitives"

type_synonym u8 = "8 word"
type_synonym u16 = "16 word"
type_synonym u32 = "32 word"

text \<open>
  A C array access outside the array is undefined behaviour.  The model does not
  guess what the hardware would do: such an access is the value \<open>Inl (ArrayIndex a i)\<close>,
  naming the array and the index, and every operation that indexes an array returns
  \<open>ub + 'a\<close>.
\<close>

datatype ub = ArrayIndex string int

definition c_load :: "string \<Rightarrow> 'a list \<Rightarrow> int \<Rightarrow> ub + 'a" where
  "c_load a xs i =
     (if 0 \<le> i \<and> i < int (length xs) then Inr (xs ! nat i) else Inl (ArrayIndex a i))"

definition c_store :: "string \<Rightarrow> 'a list \<Rightarrow> int \<Rightarrow> 'a \<Rightarrow> ub + 'a list" where
  "c_store a xs i v =
     (if 0 \<le> i \<and> i < int (length xs) then Inr (xs[nat i := v]) else Inl (ArrayIndex a i))"

text \<open>C99 \<open>%\<close> truncates towards zero; HOL's \<open>mod\<close> rounds towards minus infinity.\<close>

definition c_rem :: "int \<Rightarrow> int \<Rightarrow> int" where
  "c_rem a b = sgn a * (\<bar>a\<bar> mod \<bar>b\<bar>)"

text \<open>
  \<open>char\<close> is signed on i386: reading a \<open>char\<close> into an \<open>int\<close> sign-extends it
  (\<open>sint\<close>), storing an \<open>int\<close> into a \<open>char\<close> keeps its low byte (\<open>word_of_int\<close>,
  GCC's documented conversion).
\<close>

abbreviation char_to_int :: "u8 \<Rightarrow> int" where
  "char_to_int c \<equiv> sint c"

abbreviation int_to_char :: "int \<Rightarrow> u8" where
  "int_to_char i \<equiv> word_of_int i"

subsection \<open>Lemmas on the C primitives\<close>

lemma c_load_in [c_simps]:
  "0 \<le> i \<Longrightarrow> i < int (length xs) \<Longrightarrow> c_load a xs i = Inr (xs ! nat i)"
  by (simp add: c_load_def)

lemma c_load_out [c_simps]:
  "\<not> (0 \<le> i \<and> i < int (length xs)) \<Longrightarrow> c_load a xs i = Inl (ArrayIndex a i)"
  by (simp add: c_load_def)

lemma c_store_in [c_simps]:
  "0 \<le> i \<Longrightarrow> i < int (length xs) \<Longrightarrow> c_store a xs i v = Inr (xs[nat i := v])"
  by (simp add: c_store_def)

lemma c_store_out [c_simps]:
  "\<not> (0 \<le> i \<and> i < int (length xs)) \<Longrightarrow> c_store a xs i v = Inl (ArrayIndex a i)"
  by (simp add: c_store_def)

lemma c_rem_nonneg [c_simps]:
  "0 \<le> a \<Longrightarrow> c_rem a b = a mod \<bar>b\<bar>"
  by (cases "a = 0") (simp_all add: c_rem_def)

lemma char_to_int_range: "-128 \<le> char_to_int (c :: u8) \<and> char_to_int c < 128"
  using sint_ge [of c] sint_lt [of c] by simp

lemma char_to_int_inject: "char_to_int c = char_to_int d \<longleftrightarrow> c = (d :: u8)"
proof
  assume "char_to_int c = char_to_int d"
  then have "int_to_char (char_to_int c) = (int_to_char (char_to_int d) :: u8)" by simp
  then show "c = d" by simp
qed simp

lemma char_to_int_10: "char_to_int c = 10 \<longleftrightarrow> c = (10 :: u8)"
  using char_to_int_inject [of c 10] by simp

lemma char_to_int_m1: "char_to_int c = -1 \<longleftrightarrow> c = (255 :: u8)"
  using char_to_int_inject [of c 255] by simp

subsection \<open>Integer remainders in a window\<close>

lemma mod_window:
  fixes x n :: int
  assumes "- n \<le> x" "x < n"
  shows "x mod n = (if x < 0 then x + n else x)"
proof (cases "x < 0")
  case True
  with assms have "(x + n) mod n = x + n" by (intro mod_pos_pos_trivial) auto
  with True show ?thesis by (metis mod_add_self2)
next
  case False
  with assms show ?thesis by (simp add: mod_pos_pos_trivial)
qed

subsection \<open>Bytes\<close>

lemma uint_as_unat: "uint (w :: 'a::len word) = int (unat w)"
  by (metis uint_nat)

text \<open>The high bit of a byte is clear exactly for the values below 128.\<close>

lemma u8_and_0x80: "(sc :: u8) AND 0x80 = 0 \<longleftrightarrow> unat sc < 128"
proof -
  have "(0x80 :: u8) = 2 ^ 7" by simp
  then have "sc AND 0x80 = 0 \<longleftrightarrow> \<not> bit sc 7"
    by (simp only: and_exp_eq_0_iff_not_bit)
  also have "\<dots> \<longleftrightarrow> \<not> bit (uint sc) 7" by (simp add: bit_uint_iff)
  also have "\<dots> \<longleftrightarrow> uint sc < 128"
  proof -
    have u: "0 \<le> uint sc" "uint sc < 256" using uint_lt2p [of sc] by simp_all
    have "bit (uint sc) 7 \<longleftrightarrow> odd (uint sc div 128)" by (simp add: bit_iff_odd)
    moreover have "uint sc div 128 = (if uint sc < 128 then 0 else 1)"
      using u by auto
    ultimately show ?thesis by auto
  qed
  also have "\<dots> \<longleftrightarrow> unat sc < 128" using uint_as_unat [of sc] by linarith
  finally show ?thesis .
qed

end
