(* ===== verification/Port_IO.thy ===== *)
theory Port_IO
  imports Prelude
begin

text \<open>
  The port I/O primitives of \<^verbatim>\<open>src/include/io.h\<close>.  The hardware side of the machine is
  the record \<open>hw\<close>: the ordered trace of the port transactions the kernel has issued
  (\<open>Outb\<close>, \<open>Inb\<close>) and of the descriptor-table load (\<open>Lidt\<close>, issued by the assembly
  routine \<open>load_idt\<close>).  Every component's state extends \<open>hw\<close>, so that the order of
  writes to different devices is one sequence, as on the bus.  \<open>inb\<close> takes the byte the
  device presents as an argument: the device is the environment.
\<close>

datatype io_event = Outb u16 u8 | Inb u16 u8 | Lidt u32 u16

type_synonym trace = "io_event list"

record hw =
  io :: trace

definition outb :: "u16 \<Rightarrow> u8 \<Rightarrow> 'a hw_scheme \<Rightarrow> 'a hw_scheme" where
  "outb port value s = s\<lparr>io := io s @ [Outb port value]\<rparr>"

definition inb :: "u16 \<Rightarrow> u8 \<Rightarrow> 'a hw_scheme \<Rightarrow> u8 \<times> 'a hw_scheme" where
  "inb port dev s = (dev, s\<lparr>io := io s @ [Inb port dev]\<rparr>)"

text \<open>A run of \<open>outb\<close> calls in program order.\<close>

definition outbs :: "(u16 \<times> u8) list \<Rightarrow> 'a hw_scheme \<Rightarrow> 'a hw_scheme" where
  "outbs ws s = fold (\<lambda>(p, v). outb p v) ws s"

text \<open>The writes a device sees: the \<open>Outb\<close> events of a trace to a given set of ports, in order.\<close>

fun dev_writes :: "u16 set \<Rightarrow> trace \<Rightarrow> (u16 \<times> u8) list" where
  "dev_writes P [] = []"
| "dev_writes P (Outb p v # t) = (if p \<in> P then (p, v) # dev_writes P t else dev_writes P t)"
| "dev_writes P (e # t) = dev_writes P t"

lemma dev_writes_append [simp]: "dev_writes P (t @ u) = dev_writes P t @ dev_writes P u"
  by (induction P t rule: dev_writes.induct) auto

lemma outbs_eq [simp]: "outbs ws s = s\<lparr>io := io s @ map (\<lambda>(p, v). Outb p v) ws\<rparr>"
  by (induction ws arbitrary: s) (auto simp: outbs_def outb_def)

lemma outb_eq [simp]: "outb p v s = s\<lparr>io := io s @ [Outb p v]\<rparr>"
  by (simp add: outb_def)

end
