(* ===== verification/Framebuffer.thy ===== *)
theory Framebuffer
  imports Port_IO
begin

text \<open>
  The VGA text-mode driver of \<^verbatim>\<open>src/kernel/fb.c\<close>.  Its globals \<open>cursor_row\<close> and
  \<open>cursor_col\<close> and the video memory at \<open>0xB8000\<close> extend the hardware record as \<open>fb\<close>;
  \<open>vga\<close> maps a byte offset from \<open>0xB8000\<close> to its content, so a write outside the
  80x25 screen would show as a change outside offsets 0 to 3999.  \<open>fb_move_cursor\<close>
  writes the linear cursor position to the CRT controller's ports as two bytes.
\<close>

definition FB_COMMAND_PORT :: u16 where "FB_COMMAND_PORT = 0x3D4"
definition FB_DATA_PORT :: u16 where "FB_DATA_PORT = 0x3D5"
definition FB_MAX_ROWS :: int where "FB_MAX_ROWS = 25"
definition FB_MAX_COLS :: int where "FB_MAX_COLS = 80"

lemmas fb_consts = FB_COMMAND_PORT_def FB_DATA_PORT_def FB_MAX_ROWS_def FB_MAX_COLS_def

record fb = hw +
  cursor_row :: int
  cursor_col :: int
  vga :: "int \<Rightarrow> u8"

text \<open>
  The state at power-on: \<open>cursor_row\<close> and \<open>cursor_col\<close> are statically 0, no port has
  been written; the initial contents of video memory are not set by the code (0 here).
\<close>

definition fb_init :: fb where
  "fb_init = \<lparr>io = [], cursor_row = 0, cursor_col = 0, vga = (\<lambda>_. 0)\<rparr>"

definition fb_move_cursor :: "'a fb_scheme \<Rightarrow> 'a fb_scheme" where
  "fb_move_cursor s =
     (let pos = cursor_row s * FB_MAX_COLS + cursor_col s
      in outbs [(FB_COMMAND_PORT, 14), (FB_DATA_PORT, word_of_int (drop_bit 8 pos AND 0xFF)),
                (FB_COMMAND_PORT, 15), (FB_DATA_PORT, word_of_int (pos AND 0xFF))] s)"

text \<open>The loop of \<open>fb_clear\<close>: cell \<open>i\<close> gets a blank (0x20) in light grey (0x07).\<close>

function fb_clear_loop :: "int \<Rightarrow> (int \<Rightarrow> u8) \<Rightarrow> (int \<Rightarrow> u8)" where
  "fb_clear_loop i m =
     (if i < FB_MAX_ROWS * FB_MAX_COLS then fb_clear_loop (i + 1) (m(i * 2 := 32, i * 2 + 1 := 7))
      else m)"
  by pat_completeness auto
termination
  by (relation "measure (\<lambda>(i, m). nat (FB_MAX_ROWS * FB_MAX_COLS - i))") auto

declare fb_clear_loop.simps [simp del]

definition fb_clear :: "'a fb_scheme \<Rightarrow> 'a fb_scheme" where
  "fb_clear s = fb_move_cursor (s\<lparr>vga := fb_clear_loop 0 (vga s), cursor_row := 0, cursor_col := 0\<rparr>)"

definition fb_write_char :: "u8 \<Rightarrow> 'a fb_scheme \<Rightarrow> 'a fb_scheme" where
  "fb_write_char c s =
     (let s1 = (if c = 10 then s\<lparr>cursor_row := cursor_row s + 1, cursor_col := 0\<rparr>
                else (let pos = cursor_row s * FB_MAX_COLS + cursor_col s
                      in s\<lparr>vga := (vga s)(pos * 2 := c, pos * 2 + 1 := 7),
                           cursor_col := cursor_col s + 1\<rparr>));
          s2 = (if cursor_col s1 \<ge> FB_MAX_COLS
                then s1\<lparr>cursor_col := 0, cursor_row := cursor_row s1 + 1\<rparr> else s1);
          s3 = (if cursor_row s2 \<ge> FB_MAX_ROWS then s2\<lparr>cursor_row := 0\<rparr> else s2)
      in fb_move_cursor s3)"

text \<open>A trace of writes to the CRT controller's ports only.\<close>

definition crt_only :: "trace \<Rightarrow> bool" where
  "crt_only t \<longleftrightarrow> (\<forall>e \<in> set t. \<exists>p v. e = Outb p v \<and> (p = 0x3D4 \<or> p = 0x3D5))"

text \<open>The cursor stays on the screen.\<close>

definition fb_inv :: "'a fb_scheme \<Rightarrow> bool" where
  "fb_inv s \<longleftrightarrow> 0 \<le> cursor_row s \<and> cursor_row s < FB_MAX_ROWS \<and> 0 \<le> cursor_col s \<and> cursor_col s < FB_MAX_COLS"

abbreviation cursor_pos :: "'a fb_scheme \<Rightarrow> int" where
  "cursor_pos s \<equiv> cursor_row s * FB_MAX_COLS + cursor_col s"

subsection \<open>Lemmas\<close>

lemma fb_move_cursor_fields [simp]:
  "cursor_row (fb_move_cursor s) = cursor_row s" "cursor_col (fb_move_cursor s) = cursor_col s"
  "vga (fb_move_cursor s) = vga s" "fb.more (fb_move_cursor s) = fb.more s"
  by (simp_all add: fb_move_cursor_def Let_def)

lemma fb_write_char_cursor:
  assumes "fb_inv s"
  shows "cursor_pos (fb_write_char c s) =
           (if c = 10 then ((cursor_row s + 1) mod 25) * 80 else (cursor_pos s + 1) mod 2000)"
proof -
  from assms have r: "0 \<le> cursor_row s" "cursor_row s < 25" and c: "0 \<le> cursor_col s" "cursor_col s < 80"
    by (simp_all add: fb_inv_def fb_consts)
  show ?thesis
  proof (cases "c = 10")
    case True
    then show ?thesis using r
      by (cases "cursor_row s = 24") (simp_all add: fb_write_char_def fb_consts Let_def)
  next
    case False
    then show ?thesis using r c
      by (cases "cursor_col s = 79"; cases "cursor_row s = 24")
         (simp_all add: fb_write_char_def fb_consts Let_def mod_pos_pos_trivial)
  qed
qed

lemma fb_write_char_inv:
  "fb_inv s \<Longrightarrow> fb_inv (fb_write_char c s)"
  by (auto simp: fb_write_char_def fb_inv_def fb_consts Let_def)

lemma fb_write_char_cells:
  "vga (fb_write_char c s) j =
     (if c \<noteq> 10 \<and> j = 2 * cursor_pos s then c
      else if c \<noteq> 10 \<and> j = 2 * cursor_pos s + 1 then 7 else vga s j)"
  by (auto simp: fb_write_char_def fb_consts Let_def)

lemma fb_write_char_plain:
  "c \<noteq> 10 \<Longrightarrow> cursor_col s + 1 < 80 \<Longrightarrow> cursor_row s < 25 \<Longrightarrow>
   cursor_row (fb_write_char c s) = cursor_row s \<and> cursor_col (fb_write_char c s) = cursor_col s + 1"
  by (simp add: fb_write_char_def fb_consts Let_def)

lemma fb_write_char_newline:
  "cursor_row s + 1 < 25 \<Longrightarrow>
   cursor_row (fb_write_char 10 s) = cursor_row s + 1 \<and> cursor_col (fb_write_char 10 s) = 0
   \<and> vga (fb_write_char 10 s) = vga s"
  by (simp add: fb_write_char_def fb_consts Let_def)

lemma fb_write_char_io:
  "\<exists>t. io (fb_write_char c s) = io s @ t"
  by (auto simp: fb_write_char_def fb_move_cursor_def Let_def)

lemma fb_write_char_more [simp]: "fb.more (fb_write_char c s) = fb.more s"
  by (simp add: fb_write_char_def Let_def)

lemma int_and_255: "(x :: int) AND 255 = x mod 256"
proof -
  have "(x :: int) AND 255 = x AND mask 8" by (simp add: mask_numeral)
  also have "\<dots> = take_bit 8 x" by (simp add: take_bit_eq_mask)
  finally show ?thesis by (simp add: take_bit_eq_mod)
qed

lemma fb_move_cursor_io:
  "io (fb_move_cursor s) = io s @
     [Outb 0x3D4 14, Outb 0x3D5 (word_of_int ((cursor_pos s div 256) mod 256)),
      Outb 0x3D4 15, Outb 0x3D5 (word_of_int (cursor_pos s mod 256))]"
  by (simp add: fb_move_cursor_def Let_def fb_consts int_and_255 drop_bit_eq_div)

lemma fb_clear_loop_cells:
  "0 \<le> i \<Longrightarrow> fb_clear_loop i m j =
     (if 2 * i \<le> j \<and> j < 4000 then (if even j then 32 else 7) else m j)"
proof (induction i m rule: fb_clear_loop.induct)
  case (1 i m)
  show ?case
  proof (cases "i < 2000")
    case True
    then have "fb_clear_loop i m j = fb_clear_loop (i + 1) (m(i * 2 := 32, i * 2 + 1 := 7)) j"
      by (simp add: fb_clear_loop.simps [of i m] fb_consts)
    also have "\<dots> = (if 2 * (i + 1) \<le> j \<and> j < 4000 then (if even j then 32 else 7)
                     else (m(i * 2 := 32, i * 2 + 1 := 7)) j)"
      by (rule "1.IH") (use True "1.prems" in \<open>simp_all add: fb_consts\<close>)
    also have "\<dots> = (if 2 * i \<le> j \<and> j < 4000 then (if even j then 32 else 7) else m j)"
      using True "1.prems" by auto
    finally show ?thesis .
  next
    case False
    then show ?thesis by (auto simp: fb_clear_loop.simps [of i m] fb_consts)
  qed
qed

lemma fb_inv_io [simp]: "fb_inv (s\<lparr>io := t\<rparr>) = fb_inv s"
  by (simp add: fb_inv_def)

lemma fb_clear_more [simp]: "fb.more (fb_clear s) = fb.more s"
  by (simp add: fb_clear_def)

lemma fb_clear_inv: "fb_inv (fb_clear s)"
  by (simp add: fb_clear_def fb_inv_def fb_consts)

lemma crt_only_append [simp]: "crt_only (t @ u) \<longleftrightarrow> crt_only t \<and> crt_only u"
  by (auto simp: crt_only_def)

lemma crt_only_Nil [simp]: "crt_only []"
  by (simp add: crt_only_def)

lemma fb_write_char_crt: "\<exists>t. io (fb_write_char c s) = io s @ t \<and> crt_only t"
  by (auto simp: fb_write_char_def fb_move_cursor_def Let_def fb_consts crt_only_def)

lemma fb_clear_crt: "\<exists>t. io (fb_clear s) = io s @ t \<and> crt_only t"
  by (auto simp: fb_clear_def fb_move_cursor_def Let_def fb_consts crt_only_def)

subsection \<open>Properties\<close>

text \<open>
  C18. fb_write_char keeps the cursor on the 80x25 screen and never writes video memory
  outside the 4000 bytes of the screen.
\<close>

theorem fb_write_char_stays_on_screen:
  assumes "fb_inv s"
  shows "fb_inv (fb_write_char c s) \<and> (\<forall>j. j < 0 \<or> 4000 \<le> j \<longrightarrow> vga (fb_write_char c s) j = vga s j)"
proof -
  have "0 \<le> cursor_pos s" "cursor_pos s < 2000"
    using assms by (auto simp: fb_inv_def fb_consts)
  then show ?thesis using fb_write_char_inv [OF assms] by (auto simp: fb_write_char_cells)
qed

lemma fb_write_char_stays_on_screen_witness:
  "fb_inv (fb_write_char 65 \<lparr>io = [], cursor_row = 24, cursor_col = 79, vga = (\<lambda>_. 0)\<rparr>)
   \<and> vga (fb_write_char 65 \<lparr>io = [], cursor_row = 24, cursor_col = 79, vga = (\<lambda>_. 0)\<rparr>) 4000 = 0"
  using fb_write_char_stays_on_screen [of "\<lparr>io = [], cursor_row = 24, cursor_col = 79, vga = (\<lambda>_. 0)\<rparr>" 65]
  by (simp add: fb_inv_def fb_consts)

text \<open>
  C19. fb_write_char behaves as a teletype on the linear cursor position p = 80 row + col:
  a newline moves p to the start of the next row, wrapping from the last row to the first;
  any other byte is stored at cell p (byte 2p, attribute 0x07 at byte 2p+1) and p advances
  by one, wrapping from the last cell to the first.  No other byte of video memory changes.
\<close>

theorem fb_write_char_teletype:
  assumes "fb_inv s"
  shows "cursor_pos (fb_write_char c s) =
           (if c = 10 then ((cursor_row s + 1) mod 25) * 80 else (cursor_pos s + 1) mod 2000)
         \<and> vga (fb_write_char c s) =
           (if c = 10 then vga s else (vga s)(2 * cursor_pos s := c, 2 * cursor_pos s + 1 := 7))"
  using fb_write_char_cursor [OF assms, of c] by (auto simp: fb_write_char_cells)

lemma fb_write_char_teletype_witness:
  "cursor_pos (fb_write_char 65 \<lparr>io = [], cursor_row = 24, cursor_col = 79, vga = (\<lambda>_. 0)\<rparr>) = 0
   \<and> vga (fb_write_char 65 \<lparr>io = [], cursor_row = 24, cursor_col = 79, vga = (\<lambda>_. 0)\<rparr>) 3998 = 65"
  using fb_write_char_teletype [of "\<lparr>io = [], cursor_row = 24, cursor_col = 79, vga = (\<lambda>_. 0)\<rparr>" 65]
  by (simp add: fb_inv_def fb_consts)

text \<open>
  C20. Cursor port roundtrip: on a screen position, fb_move_cursor sends the register
  indices 14 and 15 to port 0x3D4 and two data bytes to port 0x3D5 from which the position
  is recovered as high * 256 + low.
\<close>

theorem fb_cursor_bytes_roundtrip:
  assumes "fb_inv s"
  shows "\<exists>hi lo. io (fb_move_cursor s) = io s @ [Outb 0x3D4 14, Outb 0x3D5 hi, Outb 0x3D4 15, Outb 0x3D5 lo]
           \<and> uint hi * 256 + uint lo = cursor_pos s"
proof -
  have p: "0 \<le> cursor_pos s" "cursor_pos s < 2000"
    using assms by (auto simp: fb_inv_def fb_consts) 
  then have "(cursor_pos s div 256) mod 256 = cursor_pos s div 256"
    by (intro mod_pos_pos_trivial) auto
  then have "uint (word_of_int ((cursor_pos s div 256) mod 256) :: u8) * 256
             + uint (word_of_int (cursor_pos s mod 256) :: u8) = cursor_pos s"
    by (simp add: uint_word_of_int)
  then show ?thesis using fb_move_cursor_io [of s] by blast
qed


lemma fb_cursor_bytes_roundtrip_witness:
  "\<exists>hi lo. io (fb_move_cursor \<lparr>io = [], cursor_row = 24, cursor_col = 79, vga = (\<lambda>_. 0)\<rparr>) =
     [Outb 0x3D4 14, Outb 0x3D5 hi, Outb 0x3D4 15, Outb 0x3D5 lo] \<and> uint hi * 256 + uint lo = 1999"
  using fb_cursor_bytes_roundtrip [of "\<lparr>io = [], cursor_row = 24, cursor_col = 79, vga = (\<lambda>_. 0)\<rparr>"]
  by (simp add: fb_inv_def fb_consts)

text \<open>
  C21. fb_clear fills all 2000 cells with a blank (0x20) in attribute 0x07, leaves the rest
  of memory unchanged, homes the cursor and sends position 0 to the CRT controller.
\<close>

theorem fb_clear_result:
  "fb_inv (fb_clear s) \<and> cursor_pos (fb_clear s) = 0
   \<and> (\<forall>j. vga (fb_clear s) j = (if 0 \<le> j \<and> j < 4000 then (if even j then 32 else 7) else vga s j))
   \<and> io (fb_clear s) = io s @ [Outb 0x3D4 14, Outb 0x3D5 0, Outb 0x3D4 15, Outb 0x3D5 0]"
  by (simp add: fb_clear_def fb_inv_def fb_consts fb_clear_loop_cells fb_move_cursor_io)


end
