(* ===== verification/Input_Buffer.thy ===== *)
theory Input_Buffer
  imports Prelude
begin

text \<open>
  The input ring buffer of \<^verbatim>\<open>src/kernel/input_buffer.c\<close>: the static array
  \<open>buffer[INPUT_BUFFER_SIZE]\<close> and the cursors \<open>head\<close> (write) and \<open>tail\<close> (read) as
  the record \<open>ibuf\<close>; \<open>input_put\<close>, \<open>getc_nonblock\<close> and the busy-waiting \<open>readline\<close>
  as functions on it.  Array accesses go through \<open>c_load\<close>/\<open>c_store\<close>, so an index out of
  range would be an explicit \<open>ub\<close> value; \<open>readline\<close> spins while the buffer is empty
  and is a \<^theory_text>\<open>partial_function (option)\<close>, \<open>None\<close> being "never returns".

  The abstract specification is a bounded FIFO queue of bytes (\<open>q_put\<close>, \<open>q_get\<close>):
  \<open>ib_contents\<close> reads the bytes between \<open>tail\<close> and \<open>head\<close>, oldest first, and the
  refinement lemmas show that each operation on the ring is the queue operation on its
  contents, keeping the invariant \<open>ib_inv\<close> (cursors in range, array of 256 bytes), so
  that no access is ever out of bounds.
\<close>

definition INPUT_BUFFER_SIZE :: int where
  "INPUT_BUFFER_SIZE = 256"

record ibuf =
  buffer :: "u8 list"
  head :: int
  tail :: int

definition ibuf_init :: ibuf where
  "ibuf_init = \<lparr>buffer = replicate 256 0, head = 0, tail = 0\<rparr>"

definition input_put :: "u8 \<Rightarrow> ibuf \<Rightarrow> ub + ibuf" where
  "input_put c s =
     (let next = c_rem (head s + 1) INPUT_BUFFER_SIZE in
      if next \<noteq> tail s then
        (case c_store ''buffer'' (buffer s) (head s) c of
           Inl e \<Rightarrow> Inl e
         | Inr b \<Rightarrow> Inr (s\<lparr>buffer := b, head := next\<rparr>))
      else Inr s)"

definition getc_nonblock :: "ibuf \<Rightarrow> ub + (int \<times> ibuf)" where
  "getc_nonblock s =
     (if head s = tail s then Inr (-1, s)
      else (case c_load ''buffer'' (buffer s) (tail s) of
              Inl e \<Rightarrow> Inl e
            | Inr c \<Rightarrow> Inr (char_to_int c, s\<lparr>tail := c_rem (tail s + 1) INPUT_BUFFER_SIZE\<rparr>)))"

text \<open>
  \<open>readline(out, max)\<close>: the \<open>while (1)\<close> loop is \<open>readline_loop\<close>, whose arguments
  are the loop's variables (\<open>max\<close>, the caller's array \<open>out\<close>, \<open>count\<close>) and the
  buffer state.  On an empty buffer \<open>getc_nonblock\<close> returns \<open>-1\<close> and leaves the
  state unchanged, so the recursive call repeats with the same arguments: with no
  concurrent producer the loop spins forever, which is the value \<open>None\<close>.
\<close>

partial_function (option) readline_loop ::
  "int \<Rightarrow> u8 list \<Rightarrow> int \<Rightarrow> ibuf \<Rightarrow> (ub + (int \<times> u8 list \<times> ibuf)) option" where
  "readline_loop mx out count s =
     (case getc_nonblock s of
        Inl e \<Rightarrow> Some (Inl e)
      | Inr (c, s') \<Rightarrow>
          if c = -1 then readline_loop mx out count s'
          else if c = 10 then
            (case c_store ''out'' out count 0 of
               Inl e \<Rightarrow> Some (Inl e)
             | Inr out' \<Rightarrow> Some (Inr (count, out', s')))
          else if count < mx - 1 then
            (case c_store ''out'' out count (int_to_char c) of
               Inl e \<Rightarrow> Some (Inl e)
             | Inr out' \<Rightarrow> readline_loop mx out' (count + 1) s')
          else readline_loop mx out count s')"

definition readline :: "u8 list \<Rightarrow> int \<Rightarrow> ibuf \<Rightarrow> (ub + (int \<times> u8 list \<times> ibuf)) option" where
  "readline out mx s = readline_loop mx out 0 s"

subsection \<open>Invariant and abstraction\<close>

definition ib_inv :: "ibuf \<Rightarrow> bool" where
  "ib_inv s \<longleftrightarrow> int (length (buffer s)) = INPUT_BUFFER_SIZE
     \<and> 0 \<le> head s \<and> head s < INPUT_BUFFER_SIZE \<and> 0 \<le> tail s \<and> tail s < INPUT_BUFFER_SIZE"

definition ib_contents :: "ibuf \<Rightarrow> u8 list" where
  "ib_contents s =
     map (\<lambda>i. buffer s ! nat ((tail s + int i) mod INPUT_BUFFER_SIZE))
       [0..<nat ((head s - tail s) mod INPUT_BUFFER_SIZE)]"

text \<open>The abstract queue: capacity \<open>INPUT_BUFFER_SIZE - 1\<close>, drop-newest on overflow.\<close>

definition q_put :: "u8 \<Rightarrow> u8 list \<Rightarrow> u8 list" where
  "q_put c q = (if int (length q) < INPUT_BUFFER_SIZE - 1 then q @ [c] else q)"

fun q_get :: "u8 list \<Rightarrow> int \<times> u8 list" where
  "q_get [] = (-1, [])"
| "q_get (c # q) = (char_to_int c, q)"

text \<open>
  Call sequences used by the FIFO properties: a run of \<open>input_put\<close> calls (the producer)
  and a run of \<open>n\<close> \<open>getc_nonblock\<close> calls (the consumer), stopping at the first error.
\<close>

fun put_all :: "u8 list \<Rightarrow> ibuf \<Rightarrow> ub + ibuf" where
  "put_all [] s = Inr s"
| "put_all (c # cs) s = (case input_put c s of Inl e \<Rightarrow> Inl e | Inr s' \<Rightarrow> put_all cs s')"

fun get_n :: "nat \<Rightarrow> ibuf \<Rightarrow> ub + (int list \<times> ibuf)" where
  "get_n 0 s = Inr ([], s)"
| "get_n (Suc n) s =
     (case getc_nonblock s of
        Inl e \<Rightarrow> Inl e
      | Inr (c, s') \<Rightarrow> (case get_n n s' of Inl e \<Rightarrow> Inl e | Inr (cs, s'') \<Rightarrow> Inr (c # cs, s'')))"

text \<open>A buffer whose contents are \<open>xs\<close>, written from slot 0: the concrete inputs of the witnesses.\<close>

definition ibuf_of :: "u8 list \<Rightarrow> ibuf" where
  "ibuf_of xs = \<lparr>buffer = xs @ replicate (256 - length xs) 0, head = int (length xs), tail = 0\<rparr>"

abbreviation line_chars :: "int \<Rightarrow> u8 list \<Rightarrow> u8 list" where
  "line_chars n xs \<equiv> take (nat n) (filter (\<lambda>c. c \<noteq> 255) xs)"

subsection \<open>Ring-index arithmetic\<close>

lemma ring_succ:
  fixes i :: int
  assumes "0 \<le> i" "i < 256"
  shows "(i + 1) mod 256 = (if i = 255 then 0 else i + 1)"
  using assms by (simp add: mod_pos_pos_trivial)

lemma ring_len_put:
  fixes h t :: int
  assumes "0 \<le> h" "h < 256" "0 \<le> t" "t < 256" "(h + 1) mod 256 \<noteq> t"
  shows "(h + 1 - t) mod 256 = (h - t) mod 256 + 1"
proof -
  from assms have "h + 1 - t < 256" by (auto simp: ring_succ split: if_splits)
  moreover from assms have "h + 1 \<noteq> t" by (auto simp: ring_succ split: if_splits)
  ultimately show ?thesis using assms by (simp add: mod_window)
qed

lemma ring_len_get:
  fixes h t :: int
  assumes "0 \<le> h" "h < 256" "0 \<le> t" "t < 256" "h \<noteq> t"
  shows "(h - (t + 1) mod 256) mod 256 = (h - t) mod 256 - 1"
  using assms by (simp add: ring_succ mod_window)

lemma ring_idx_before_head:
  fixes h t :: int
  assumes "0 \<le> h" "h < 256" "i < nat ((h - t) mod 256)"
  shows "(t + int i) mod 256 \<noteq> h"
proof
  assume eq: "(t + int i) mod 256 = h"
  have "(h - t) mod 256 = ((t + int i) mod 256 - t) mod 256" by (simp add: eq)
  also have "\<dots> = int i mod 256" by (simp add: mod_diff_left_eq)
  also have "\<dots> = int i" using assms by (simp add: mod_pos_pos_trivial)
  finally show False using assms by simp
qed

lemma ring_idx_head:
  fixes h t :: int
  assumes "0 \<le> h" "h < 256"
  shows "(t + (h - t) mod 256) mod 256 = h"
proof -
  have "(t + (h - t) mod 256) mod 256 = (t + (h - t)) mod 256" by (simp add: mod_add_right_eq)
  then show ?thesis using assms by (simp add: mod_pos_pos_trivial)
qed

lemma ring_full_len:
  fixes h t :: int
  assumes "0 \<le> h" "h < 256" "0 \<le> t" "t < 256" "(h + 1) mod 256 = t"
  shows "(h - t) mod 256 = 255"
  using assms by (auto simp: ring_succ mod_window split: if_splits)

subsection \<open>Producer and consumer steps\<close>

lemma ib_inv_unfold:
  "ib_inv s \<longleftrightarrow> length (buffer s) = 256 \<and> 0 \<le> head s \<and> head s < 256 \<and> 0 \<le> tail s \<and> tail s < 256"
  by (auto simp: ib_inv_def INPUT_BUFFER_SIZE_def)

lemma input_put_full:
  assumes "ib_inv s" "(head s + 1) mod 256 = tail s"
  shows "input_put c s = Inr s" and "length (ib_contents s) = 255"
  using assms ring_full_len [of "head s" "tail s"]
  by (auto simp: input_put_def ib_inv_unfold c_rem_nonneg ib_contents_def INPUT_BUFFER_SIZE_def)

lemma input_put_room:
  assumes inv: "ib_inv s" and room: "(head s + 1) mod 256 \<noteq> tail s"
  shows "input_put c s = Inr (s\<lparr>buffer := (buffer s)[nat (head s) := c], head := (head s + 1) mod 256\<rparr>)"
    and "ib_contents (s\<lparr>buffer := (buffer s)[nat (head s) := c], head := (head s + 1) mod 256\<rparr>)
           = ib_contents s @ [c]"
proof -
  from inv have b: "length (buffer s) = 256" "0 \<le> head s" "head s < 256" "0 \<le> tail s" "tail s < 256"
    by (simp_all add: ib_inv_unfold)
  with room show "input_put c s = Inr (s\<lparr>buffer := (buffer s)[nat (head s) := c], head := (head s + 1) mod 256\<rparr>)"
    by (simp add: input_put_def c_rem_nonneg c_store_in INPUT_BUFFER_SIZE_def)
  let ?d = "nat ((head s - tail s) mod 256)"
  have len: "nat ((head s + 1 - tail s) mod 256) = Suc ?d"
    using b room by (simp add: ring_len_put)
  then have len': "nat (((head s + 1) mod 256 - tail s) mod 256) = Suc ?d"
    by (simp add: mod_diff_left_eq)
  have old: "\<And>i. i < ?d \<Longrightarrow> (buffer s)[nat (head s) := c] ! nat ((tail s + int i) mod 256)
                  = buffer s ! nat ((tail s + int i) mod 256)"
    using b ring_idx_before_head [of "head s" _ "tail s"]
    by (metis nat_eq_iff2 nth_list_update_neq pos_mod_sign zero_less_numeral)
  have new: "(buffer s)[nat (head s) := c] ! nat ((tail s + int ?d) mod 256) = c"
    using b ring_idx_head [of "head s" "tail s"] by simp
  show "ib_contents (s\<lparr>buffer := (buffer s)[nat (head s) := c], head := (head s + 1) mod 256\<rparr>)
           = ib_contents s @ [c]"
    unfolding ib_contents_def INPUT_BUFFER_SIZE_def using len' old new by simp
qed

lemma getc_empty:
  assumes "head s = tail s"
  shows "getc_nonblock s = Inr (-1, s)" and "ib_contents s = []"
  using assms by (simp_all add: getc_nonblock_def ib_contents_def)

lemma getc_nonempty:
  assumes inv: "ib_inv s" and ne: "head s \<noteq> tail s"
  shows "getc_nonblock s = Inr (char_to_int (buffer s ! nat (tail s)), s\<lparr>tail := (tail s + 1) mod 256\<rparr>)"
    and "ib_contents s = buffer s ! nat (tail s) # ib_contents (s\<lparr>tail := (tail s + 1) mod 256\<rparr>)"
proof -
  from inv have b: "length (buffer s) = 256" "0 \<le> head s" "head s < 256" "0 \<le> tail s" "tail s < 256"
    by (simp_all add: ib_inv_unfold)
  with ne show "getc_nonblock s = Inr (char_to_int (buffer s ! nat (tail s)), s\<lparr>tail := (tail s + 1) mod 256\<rparr>)"
    by (simp add: getc_nonblock_def c_rem_nonneg c_load_in INPUT_BUFFER_SIZE_def)
  let ?d = "nat ((head s - tail s) mod 256)"
  have "0 < (head s - tail s) mod 256"
    using b ne by (simp add: mod_window)
  then have d: "?d = Suc (nat ((head s - (tail s + 1) mod 256) mod 256))"
    using b ne by (simp add: ring_len_get)
  have idx: "((tail s + 1) mod 256 + int i) mod 256 = (tail s + int (Suc i)) mod 256" for i
    by (simp add: mod_add_left_eq add.assoc)
  have first: "nat ((tail s + int 0) mod 256) = nat (tail s)"
    using b by (simp add: mod_pos_pos_trivial)
  show "ib_contents s = buffer s ! nat (tail s) # ib_contents (s\<lparr>tail := (tail s + 1) mod 256\<rparr>)"
    unfolding ib_contents_def INPUT_BUFFER_SIZE_def
    by (simp only: d upt_conv_Cons map_Suc_upt [symmetric] list.map first simp_thms
          zero_less_Suc map_map comp_def) (simp add: idx)
qed

lemma getc_nonempty_inv:
  "ib_inv s \<Longrightarrow> ib_inv (s\<lparr>tail := (tail s + 1) mod 256\<rparr>)"
  by (simp add: ib_inv_unfold)

lemma ib_contents_Cons:
  assumes "ib_inv s" "ib_contents s = c # cs"
  shows "getc_nonblock s = Inr (char_to_int c, s\<lparr>tail := (tail s + 1) mod 256\<rparr>)"
    and "ib_contents (s\<lparr>tail := (tail s + 1) mod 256\<rparr>) = cs"
proof -
  have ne: "head s \<noteq> tail s" using assms getc_empty(2) [of s] by auto
  show "getc_nonblock s = Inr (char_to_int c, s\<lparr>tail := (tail s + 1) mod 256\<rparr>)"
    using getc_nonempty [OF assms(1) ne] assms(2) by simp
  show "ib_contents (s\<lparr>tail := (tail s + 1) mod 256\<rparr>) = cs"
    using getc_nonempty(2) [OF assms(1) ne] assms(2) by simp
qed

lemma getc_nonblock_ok:
  "ib_inv s \<Longrightarrow> \<exists>c s'. getc_nonblock s = Inr (c, s') \<and> ib_inv s'"
  by (cases "head s = tail s") (auto simp: getc_empty getc_nonempty getc_nonempty_inv)

text \<open>One call of \<open>getc_nonblock\<close> on a buffer with the invariant, as the queue sees it.\<close>

lemma getc_nonblock_step:
  assumes "ib_inv s" "getc_nonblock s = Inr (c, s')"
  shows "ib_inv s' \<and> (ib_contents s = [] \<and> s' = s \<and> c = -1
           \<or> (\<exists>b. ib_contents s = b # ib_contents s' \<and> c = char_to_int b))"
proof (cases "head s = tail s")
  case True
  then show ?thesis using assms getc_empty [of s] by simp
next
  case False
  then show ?thesis using assms getc_nonempty [OF assms(1) False] getc_nonempty_inv [OF assms(1)] by auto
qed

subsection \<open>The line reader\<close>

text \<open>One iteration of \<open>readline\<close>'s loop once \<open>getc_nonblock\<close> has answered.\<close>

lemma readline_loop_getc:
  "getc_nonblock s = Inr (c, s') \<Longrightarrow>
   readline_loop mx out count s =
     (if c = -1 then readline_loop mx out count s'
      else if c = 10 then
        (case c_store ''out'' out count 0 of
           Inl e \<Rightarrow> Some (Inl e)
         | Inr out' \<Rightarrow> Some (Inr (count, out', s')))
      else if count < mx - 1 then
        (case c_store ''out'' out count (int_to_char c) of
           Inl e \<Rightarrow> Some (Inl e)
         | Inr out' \<Rightarrow> readline_loop mx out' (count + 1) s')
      else readline_loop mx out count s')"
  by (simp add: readline_loop.simps [of mx out count s])

text \<open>
  Reasoning about a result of \<open>readline_loop\<close> (fixpoint induction), one case per branch of
  the loop body: an error of \<open>getc_nonblock\<close>, the busy-wait on \<open>-1\<close>, the newline (with
  its store), a kept character (with its store) and a discarded one.
\<close>

lemma readline_loop_cases_rule [consumes 1, case_names error spin newline_error newline keep_error keep drop]:
  assumes ret: "readline_loop mx out count s = Some r"
    and error: "\<And>mx out count s e. getc_nonblock s = Inl e \<Longrightarrow> P mx out count s (Inl e)"
    and spin: "\<And>mx out count s s' r. getc_nonblock s = Inr (-1, s') \<Longrightarrow> P mx out count s' r \<Longrightarrow>
                 P mx out count s r"
    and newline_error: "\<And>mx out count s s' e. getc_nonblock s = Inr (10, s') \<Longrightarrow>
                 c_store ''out'' out count 0 = Inl e \<Longrightarrow> P mx out count s (Inl e)"
    and newline: "\<And>mx out count s s' out'. getc_nonblock s = Inr (10, s') \<Longrightarrow>
                 c_store ''out'' out count 0 = Inr out' \<Longrightarrow> P mx out count s (Inr (count, out', s'))"
    and keep_error: "\<And>mx out count s c s' e. getc_nonblock s = Inr (c, s') \<Longrightarrow> c \<noteq> -1 \<Longrightarrow> c \<noteq> 10 \<Longrightarrow>
                 count < mx - 1 \<Longrightarrow> c_store ''out'' out count (int_to_char c) = Inl e \<Longrightarrow>
                 P mx out count s (Inl e)"
    and keep: "\<And>mx out count s c s' out' r. getc_nonblock s = Inr (c, s') \<Longrightarrow> c \<noteq> -1 \<Longrightarrow> c \<noteq> 10 \<Longrightarrow>
                 count < mx - 1 \<Longrightarrow> c_store ''out'' out count (int_to_char c) = Inr out' \<Longrightarrow>
                 P mx out' (count + 1) s' r \<Longrightarrow> P mx out count s r"
    and drop: "\<And>mx out count s c s' r. getc_nonblock s = Inr (c, s') \<Longrightarrow> c \<noteq> -1 \<Longrightarrow> c \<noteq> 10 \<Longrightarrow>
                 \<not> count < mx - 1 \<Longrightarrow> P mx out count s' r \<Longrightarrow> P mx out count s r"
  shows "P mx out count s r"
proof (rule readline_loop.raw_induct [where P = P, OF _ ret])
  fix f mx out count s r
  assume IH: "\<And>mx out count s r. f mx out count s = Some r \<Longrightarrow> P mx out count s r"
    and body: "(case getc_nonblock s of
        Inl e \<Rightarrow> Some (Inl e)
      | Inr (c, s') \<Rightarrow>
          if c = -1 then f mx out count s'
          else if c = 10 then
            (case c_store ''out'' out count 0 of
               Inl e \<Rightarrow> Some (Inl e)
             | Inr out' \<Rightarrow> Some (Inr (count, out', s')))
          else if count < mx - 1 then
            (case c_store ''out'' out count (int_to_char c) of
               Inl e \<Rightarrow> Some (Inl e)
             | Inr out' \<Rightarrow> f mx out' (count + 1) s')
          else f mx out count s') = Some r"
  show "P mx out count s r"
  proof (cases "getc_nonblock s")
    case (Inl e)
    then show ?thesis using body error by auto
  next
    case (Inr cs)
    then obtain c s' where g: "getc_nonblock s = Inr (c, s')" by (cases cs) auto
    consider "c = -1" | "c = 10" | "c \<noteq> -1" "c \<noteq> 10" "count < mx - 1" | "c \<noteq> -1" "c \<noteq> 10" "\<not> count < mx - 1"
      by force
    then show ?thesis
    proof cases
      case 1
      then show ?thesis using body g IH spin by auto
    next
      case 2
      then show ?thesis using body g newline_error newline by (auto split: sum.splits)
    next
      case 3
      then show ?thesis using body g IH keep_error keep by (auto split: sum.splits)
    next
      case 4
      then show ?thesis using body g IH drop by auto
    qed
  qed
qed

text \<open>Storing one more kept character before the rest of the line.\<close>

lemma line_store_step:
  assumes "0 \<le> count" "nat count < length out"
  shows "take (nat (count + 1)) (out[nat count := c]) @ L @ [0]
           @ drop (nat (count + 1) + length L + 1) (out[nat count := c])
         = take (nat count) out @ (c # L) @ [0] @ drop (nat count + length (c # L) + 1) out"
  using assms
  by (simp add: take_Suc_conv_app_nth nat_add_distrib take_update_cancel drop_update_cancel)

lemma readline_loop_line:
  assumes "ib_inv s" "ib_contents s = xs @ 10 # ys" "10 \<notin> set xs" "0 \<le> count"
    and "nat count + length (line_chars (mx - 1 - count) xs) < length out"
  shows "\<exists>s'. readline_loop mx out count s =
           Some (Inr (count + int (length (line_chars (mx - 1 - count) xs)),
                      take (nat count) out @ line_chars (mx - 1 - count) xs @ [0]
                        @ drop (nat count + length (line_chars (mx - 1 - count) xs) + 1) out, s'))
         \<and> ib_inv s' \<and> ib_contents s' = ys"
  using assms
proof (induction xs arbitrary: s out count)
  case Nil
  let ?s' = "s\<lparr>tail := (tail s + 1) mod 256\<rparr>"
  have "readline_loop mx out count s = Some (Inr (count, out[nat count := 0], ?s'))"
    using Nil ib_contents_Cons [of s 10 ys] by (simp add: readline_loop_getc c_store_in)
  moreover have "out[nat count := 0] = take (nat count) out @ [0] @ drop (nat count + 1) out"
    using Nil.prems(5) by (simp add: upd_conv_take_nth_drop)
  ultimately show ?case
    using Nil ib_contents_Cons [of s 10 ys] getc_nonempty_inv by auto
next
  case (Cons c xs)
  let ?s' = "s\<lparr>tail := (tail s + 1) mod 256\<rparr>"
  have g: "getc_nonblock s = Inr (char_to_int c, ?s')" and cs: "ib_contents ?s' = xs @ 10 # ys"
    using Cons.prems ib_contents_Cons [of s c "xs @ 10 # ys"] by simp_all
  have inv': "ib_inv ?s'" using Cons.prems(1) by (rule getc_nonempty_inv)
  have c10: "char_to_int c \<noteq> 10" using Cons.prems(3) by (simp add: char_to_int_10)
  consider "c = 255" | "c \<noteq> 255" "count < mx - 1" | "c \<noteq> 255" "\<not> count < mx - 1" by blast
  then show ?case
  proof cases
    case 1
    then show ?thesis
      using Cons.IH [OF inv' cs] Cons.prems g by (simp add: readline_loop_getc)
  next
    case 2
    let ?L = "line_chars (mx - 1 - (count + 1)) xs"
    have "nat (mx - 1 - count) = Suc (nat (mx - 1 - (count + 1)))" using 2 by simp
    then have L: "line_chars (mx - 1 - count) (c # xs) = c # ?L" using 2 by simp
    have lenL: "length (line_chars (mx - 1 - count) (c # xs)) = Suc (length ?L)"
      using L by (metis length_Cons)
    have k: "nat count < length out" using Cons.prems(5) lenL by simp
    have step: "readline_loop mx out count s = readline_loop mx (out[nat count := c]) (count + 1) ?s'"
      using g 2 c10 k Cons.prems(4) by (simp add: readline_loop_getc char_to_int_m1 c_store_in)
    have "nat (count + 1) + length ?L < length (out[nat count := c])"
      using Cons.prems(4,5) lenL by (simp add: nat_add_distrib)
    then show ?thesis
      using Cons.IH [OF inv' cs, of "count + 1" "out[nat count := c]"] Cons.prems(3,4) step L
        line_store_step [OF Cons.prems(4) k, of c ?L] by auto
  next
    case 3
    then have n0: "nat (mx - 1 - count) = 0" by simp
    have "readline_loop mx out count s = readline_loop mx out count ?s'"
      using g 3 c10 by (simp add: readline_loop_getc char_to_int_m1)
    then show ?thesis using Cons.IH [OF inv' cs, of count out] Cons.prems n0 by auto
  qed
qed

lemma readline_loop_needs_newline:
  assumes ret: "readline_loop mx out count s = Some r" and inv: "ib_inv s"
  shows "ib_contents s \<noteq> [] \<and> (isl r \<or> 10 \<in> set (ib_contents s))"
  using ret inv
proof (induction rule: readline_loop_cases_rule)
  case (error mx out count s e)
  then show ?case using getc_nonblock_ok by fastforce
next
  case (spin mx out count s s' r)
  then show ?case using getc_nonblock_step [OF spin.prems spin.hyps(1)] by auto
next
  case (newline_error mx out count s s' e)
  then show ?case using getc_nonblock_step [OF newline_error.prems newline_error.hyps(1)] by auto
next
  case (newline mx out count s s' out')
  then show ?case using getc_nonblock_step [OF newline.prems newline.hyps(1)] by (auto simp: char_to_int_10)
next
  case (keep_error mx out count s c s' e)
  then show ?case using getc_nonblock_step [OF keep_error.prems keep_error.hyps(1)] by auto
next
  case (keep mx out count s c s' out' r)
  then show ?case using getc_nonblock_step [OF keep.prems keep.hyps(1)] by auto
next
  case (drop mx out count s c s' r)
  then show ?case using getc_nonblock_step [OF drop.prems drop.hyps(1)] by auto
qed

text \<open>
  The bound the loop keeps: \<open>count\<close> stays inside \<open>out\<close> when \<open>max\<close> does not exceed its
  length, so each store is in bounds and the returned count is at most \<open>max - 1\<close> (or the
  starting count).
\<close>

lemma readline_loop_bounds:
  assumes "readline_loop mx out count s = Some r"
    and "ib_inv s" "0 \<le> count" "count < int (length out)" "mx \<le> int (length out)"
  shows "\<exists>len out' s'. r = Inr (len, out', s') \<and> count \<le> len \<and> len \<le> max count (mx - 1)
           \<and> length out' = length out \<and> out' ! nat len = 0 \<and> ib_inv s'"
  using assms
proof (induction rule: readline_loop_cases_rule)
  case (error mx out count s e)
  then show ?case using getc_nonblock_ok by fastforce
next
  case (spin mx out count s s' r)
  then show ?case using getc_nonblock_step [OF spin.prems(1) spin.hyps(1)] by auto
next
  case (newline_error mx out count s s' e)
  then show ?case by (simp add: c_store_in)
next
  case (newline mx out count s s' out')
  then show ?case using getc_nonblock_step [OF newline.prems(1) newline.hyps(1)] by (auto simp: c_store_in)
next
  case (keep_error mx out count s c s' e)
  then show ?case by (simp add: c_store_in)
next
  case (keep mx out count s c s' out' r)
  then have "out' = out[nat count := int_to_char c]" by (simp add: c_store_in)
  then show ?case using keep getc_nonblock_step [OF keep.prems(1) keep.hyps(1)] by fastforce
next
  case (drop mx out count s c s' r)
  then show ?case using getc_nonblock_step [OF drop.prems(1) drop.hyps(1)] by auto
qed

lemma ib_contents_length:
  "length (ib_contents s) \<le> 255"
proof -
  have "(head s - tail s) mod 256 < 256" by simp
  then show ?thesis by (simp add: ib_contents_def INPUT_BUFFER_SIZE_def)
qed

lemma ib_contents_empty_iff:
  assumes "ib_inv s"
  shows "ib_contents s = [] \<longleftrightarrow> head s = tail s"
  using assms by (auto simp: ib_contents_def ib_inv_unfold INPUT_BUFFER_SIZE_def mod_window
                        split: if_splits)

lemma input_put_room_inv:
  "ib_inv s \<Longrightarrow> ib_inv (s\<lparr>buffer := (buffer s)[nat (head s) := c], head := (head s + 1) mod 256\<rparr>)"
  by (simp add: ib_inv_unfold)

lemma put_all_correct:
  "ib_inv s \<Longrightarrow> \<exists>s'. put_all xs s = Inr s' \<and> ib_inv s'
     \<and> ib_contents s' = ib_contents s @ take (255 - length (ib_contents s)) xs"
proof (induction xs arbitrary: s)
  case Nil
  then show ?case by simp
next
  case (Cons c xs)
  show ?case
  proof (cases "(head s + 1) mod 256 = tail s")
    case True
    then show ?thesis using Cons.IH [OF Cons.prems] input_put_full [OF Cons.prems True] by simp
  next
    case False
    let ?s1 = "s\<lparr>buffer := (buffer s)[nat (head s) := c], head := (head s + 1) mod 256\<rparr>"
    have step: "input_put c s = Inr ?s1" and c1: "ib_contents ?s1 = ib_contents s @ [c]"
      using input_put_room [OF Cons.prems False] by simp_all
    have "length (ib_contents s) < 255"
      using ib_contents_length [of ?s1] c1 by simp
    then have n: "255 - length (ib_contents s) = Suc (255 - length (ib_contents ?s1))"
      using c1 by simp
    show ?thesis
      using Cons.IH [OF input_put_room_inv [OF Cons.prems, of c]] step c1 n by auto
  qed
qed

lemma get_n_correct:
  "ib_inv s \<Longrightarrow> n \<le> length (ib_contents s) \<Longrightarrow>
   \<exists>s'. get_n n s = Inr (map char_to_int (take n (ib_contents s)), s') \<and> ib_inv s'
     \<and> ib_contents s' = drop n (ib_contents s)"
proof (induction n arbitrary: s)
  case 0
  then show ?case by simp
next
  case (Suc n)
  then obtain c cs where cs: "ib_contents s = c # cs" by (cases "ib_contents s") auto
  let ?s1 = "s\<lparr>tail := (tail s + 1) mod 256\<rparr>"
  have "getc_nonblock s = Inr (char_to_int c, ?s1)" and "ib_contents ?s1 = cs"
    using ib_contents_Cons [OF Suc.prems(1) cs] by simp_all
  then show ?case
    using Suc.IH [OF getc_nonempty_inv [OF Suc.prems(1)]] Suc.prems cs by auto
qed

lemma ibuf_init_inv: "ib_inv ibuf_init"
  by (simp add: ib_inv_unfold ibuf_init_def)

lemma ibuf_init_contents: "ib_contents ibuf_init = []"
  by (simp add: ibuf_init_def ib_contents_def)

lemma ibuf_of_inv: "length xs < 256 \<Longrightarrow> ib_inv (ibuf_of xs)"
  by (simp add: ibuf_of_def ib_inv_unfold)

lemma ibuf_of_contents: "length xs < 256 \<Longrightarrow> ib_contents (ibuf_of xs) = xs"
proof -
  assume len: "length xs < 256"
  have "ib_contents (ibuf_of xs) = map (\<lambda>i. (xs @ replicate (256 - length xs) 0) ! i) [0..<length xs]"
    using len by (simp add: ibuf_of_def ib_contents_def INPUT_BUFFER_SIZE_def mod_pos_pos_trivial)
  also have "\<dots> = map (\<lambda>i. xs ! i) [0..<length xs]"
    by (simp add: nth_append)
  also have "\<dots> = xs" by (simp add: map_nth)
  finally show ?thesis .
qed

text \<open>C1. Refinement of the producer: on a buffer satisfying the invariant, input_put never indexes
  out of bounds, keeps the invariant, and acts on the contents as the bounded queue's put:
  the byte is appended when fewer than 255 bytes are stored and silently dropped otherwise.\<close>

lemma input_put_refines:
  assumes "ib_inv s"
  shows "\<exists>s'. input_put c s = Inr s' \<and> ib_inv s' \<and> ib_contents s' = q_put c (ib_contents s)"
proof (cases "(head s + 1) mod 256 = tail s")
  case True
  then show ?thesis using input_put_full [OF assms True] assms
    by (simp add: q_put_def INPUT_BUFFER_SIZE_def)
next
  case False
  then show ?thesis
    using input_put_room [OF assms False] input_put_room_inv [OF assms]
      ib_contents_length [of "s\<lparr>buffer := (buffer s)[nat (head s) := c], head := (head s + 1) mod 256\<rparr>"]
    by (auto simp: q_put_def INPUT_BUFFER_SIZE_def)
qed

lemma input_put_refines_witness:
  "\<exists>s'. input_put 97 ibuf_init = Inr s' \<and> ib_inv s' \<and> ib_contents s' = [97]"
  using input_put_refines [OF ibuf_init_inv, of 97]
  by (simp add: ibuf_init_contents q_put_def INPUT_BUFFER_SIZE_def)

text \<open>C2. Refinement of the consumer: getc_nonblock never indexes out of bounds, keeps the invariant,
  and returns the sign-extended oldest byte and removes it, or -1 with nothing removed when
  the buffer is empty.\<close>

lemma getc_nonblock_refines:
  assumes "ib_inv s"
  shows "\<exists>s'. getc_nonblock s = Inr (fst (q_get (ib_contents s)), s') \<and> ib_inv s'
           \<and> ib_contents s' = snd (q_get (ib_contents s))"
proof (cases "ib_contents s")
  case Nil
  then show ?thesis using assms getc_empty [of s] ib_contents_empty_iff [OF assms] by simp
next
  case (Cons c cs)
  then show ?thesis using ib_contents_Cons [OF assms Cons] getc_nonempty_inv [OF assms] by simp
qed

lemma getc_nonblock_refines_witness:
  "\<exists>s'. getc_nonblock (ibuf_of [97]) = Inr (97, s') \<and> ib_inv s' \<and> ib_contents s' = []"
  using getc_nonblock_refines [OF ibuf_of_inv [of "[97]"]] by (simp add: ibuf_of_contents)

text \<open>C3. FIFO order: N < 256 puts into an empty buffer followed by N non-blocking gets return the
  pushed bytes in the order they were pushed, and leave the buffer empty.\<close>

lemma fifo_order:
  assumes "ib_inv s" "ib_contents s = []" "length xs < 256"
  shows "\<exists>s1 s2. put_all xs s = Inr s1 \<and> get_n (length xs) s1 = Inr (map char_to_int xs, s2)
           \<and> ib_contents s2 = []"
proof -
  obtain s1 where p: "put_all xs s = Inr s1" "ib_inv s1" "ib_contents s1 = xs"
    using put_all_correct [OF assms(1), of xs] assms(2,3) by auto
  then show ?thesis using get_n_correct [OF p(2), of "length xs"] by auto
qed

lemma fifo_order_witness:
  "\<exists>s1 s2. put_all [104, 105, 10] ibuf_init = Inr s1
     \<and> get_n 3 s1 = Inr ([104, 105, 10], s2) \<and> ib_contents s2 = []"
  using fifo_order [OF ibuf_init_inv ibuf_init_contents, of "[104, 105, 10]"]
  by (simp add: numeral_3_eq_3 del: put_all.simps get_n.simps)

text \<open>C4. Overflow policy: after any run of puts into an empty buffer its contents are the first 255
  bytes pushed; one slot of the 256 stays unused and later bytes are the ones lost.\<close>

lemma overflow_drops_newest:
  assumes "ib_inv s" "ib_contents s = []"
  shows "\<exists>s'. put_all xs s = Inr s' \<and> ib_contents s' = take 255 xs"
  using put_all_correct [OF assms(1), of xs] assms(2) by auto

lemma overflow_drops_newest_witness:
  "\<exists>s'. put_all (replicate 257 65) ibuf_init = Inr s' \<and> ib_contents s' = replicate 255 65"
  using overflow_drops_newest [OF ibuf_init_inv ibuf_init_contents, of "replicate 257 65"]
  by (simp del: put_all.simps)

text \<open>C8. The empty sentinel is not out of band: getc_nonblock returns the stored char sign-extended,
  so it returns -1 exactly when the buffer is empty or its oldest byte is 0xFF; a stored 0xFF
  is indistinguishable from "empty".\<close>

lemma getc_sentinel_collision:
  assumes "ib_inv s" "getc_nonblock s = Inr (r, s')"
  shows "r = -1 \<longleftrightarrow> ib_contents s = [] \<or> hd (ib_contents s) = 255"
proof (cases "ib_contents s")
  case Nil
  then show ?thesis using assms getc_empty [of s] ib_contents_empty_iff [OF assms(1)] by simp
next
  case (Cons c cs)
  then show ?thesis using assms ib_contents_Cons [OF assms(1) Cons] by (auto simp: char_to_int_m1)
qed

lemma getc_sentinel_collision_witness:
  "getc_nonblock (ibuf_of [255]) = Inr (-1, (ibuf_of [255])\<lparr>tail := 1\<rparr>)
   \<and> ib_contents (ibuf_of [255]) \<noteq> []"
proof -
  have g: "getc_nonblock (ibuf_of [255]) = Inr (-1, (ibuf_of [255])\<lparr>tail := 1\<rparr>)"
    by (simp add: getc_nonblock_def ibuf_of_def c_load_def c_rem_def INPUT_BUFFER_SIZE_def)
  have "ib_contents (ibuf_of [255]) = [] \<or> hd (ib_contents (ibuf_of [255])) = 255"
    using getc_sentinel_collision [OF ibuf_of_inv [of "[255]"] g] by simp
  then show ?thesis using g by (auto simp: ibuf_of_contents)
qed

lemma readline_loop_discard:
  assumes "ib_inv s" "ib_contents s = xs @ 10 # ys" "10 \<notin> set xs" "mx - 1 \<le> count"
  shows "\<exists>s'. ib_inv s' \<and> ib_contents s' = ys \<and>
           readline_loop mx out count s =
             (case c_store ''out'' out count 0 of
                Inl e \<Rightarrow> Some (Inl e)
              | Inr out' \<Rightarrow> Some (Inr (count, out', s')))"
  using assms
proof (induction xs arbitrary: s)
  case Nil
  let ?s' = "s\<lparr>tail := (tail s + 1) mod 256\<rparr>"
  have "readline_loop mx out count s =
          (case c_store ''out'' out count 0 of
             Inl e \<Rightarrow> Some (Inl e)
           | Inr out' \<Rightarrow> Some (Inr (count, out', ?s')))"
    using ib_contents_Cons [OF Nil.prems(1), of 10 ys] Nil.prems(2)
    by (simp add: readline_loop.simps [of mx out count s])
  then show ?case
    using ib_contents_Cons [OF Nil.prems(1), of 10 ys] Nil.prems(2) getc_nonempty_inv [OF Nil.prems(1)]
    by auto
next
  case (Cons c xs)
  let ?s' = "s\<lparr>tail := (tail s + 1) mod 256\<rparr>"
  have g: "getc_nonblock s = Inr (char_to_int c, ?s')" and cs: "ib_contents ?s' = xs @ 10 # ys"
    using ib_contents_Cons [of s c "xs @ 10 # ys"] Cons.prems by simp_all
  have "readline_loop mx out count s = readline_loop mx out count ?s'"
    using g Cons.prems(3,4)
    by (simp add: readline_loop.simps [of mx out count s] char_to_int_m1 char_to_int_10)
  then show ?case
    using Cons.IH [OF getc_nonempty_inv [OF Cons.prems(1)] cs] Cons.prems(3,4) by simp
qed

text \<open>C5. readline returns once a newline is in the buffer: with the invariant and contents xs, a
  newline, ys (no newline in xs), and an output array larger than the kept characters, it
  returns Some: the count of kept bytes, the first max - 1 bytes of xs other than 0xFF followed
  by the terminator 0, the rest of out untouched, and the buffer holding ys.\<close>

lemma readline_returns_line:
  assumes "ib_inv s" "ib_contents s = xs @ 10 # ys" "10 \<notin> set xs"
    and "length (line_chars (mx - 1) xs) < length out"
  shows "\<exists>s'. readline out mx s =
           Some (Inr (int (length (line_chars (mx - 1) xs)),
                      line_chars (mx - 1) xs @ [0] @ drop (length (line_chars (mx - 1) xs) + 1) out, s'))
         \<and> ib_inv s' \<and> ib_contents s' = ys"
  using readline_loop_line [OF assms(1-3), of 0 mx out] assms(4) by (simp add: readline_def)

lemma readline_returns_line_witness:
  "\<exists>s'. readline (replicate 256 0) 256 (ibuf_of [104, 105, 10]) =
          Some (Inr (2, [104, 105, 0] @ replicate 253 0, s')) \<and> ib_contents s' = []"
  using readline_returns_line [where s = "ibuf_of [104, 105, 10]" and xs = "[104, 105]" and ys = "[]"
      and mx = 256 and out = "replicate 256 0"]
  by (auto simp: ibuf_of_inv ibuf_of_contents)

text \<open>C7. readline never returns a line while no newline is in the buffer (and nothing is added to it).\<close>

lemma readline_needs_newline:
  assumes "ib_inv s" "10 \<notin> set (ib_contents s)"
  shows "readline out mx s \<noteq> Some (Inr r)"
  using readline_loop_needs_newline [of mx out 0 s "Inr r"] assms by (auto simp: readline_def)

lemma readline_needs_newline_witness:
  "\<forall>r. readline (replicate 256 0) 256 (ibuf_of [104, 105]) \<noteq> Some (Inr r)"
  using readline_needs_newline [OF ibuf_of_inv [of "[104, 105]"]] by (simp add: ibuf_of_contents)

text \<open>C6. readline on an empty buffer with no concurrent producer never returns: it busy-waits forever.\<close>

lemma readline_blocks_when_empty:
  assumes "ib_inv s" "ib_contents s = []"
  shows "readline out mx s = None"
  using readline_loop_needs_newline [of mx out 0 s] assms
  by (cases "readline out mx s") (auto simp: readline_def)

lemma readline_blocks_when_empty_witness:
  "readline (replicate 256 0) 256 ibuf_init = None"
  using readline_blocks_when_empty [OF ibuf_init_inv ibuf_init_contents] .

text \<open>C9. readline writes the terminator at out[count] without comparing count with max: called
  with max at most 1 on a zero-length array it writes out[0], out of bounds.\<close>

lemma readline_zero_capacity:
  assumes "ib_inv s" "ib_contents s = xs @ 10 # ys" "10 \<notin> set xs" "mx \<le> 1"
  shows "readline [] mx s = Some (Inl (ArrayIndex ''out'' 0))"
  using readline_loop_discard [OF assms(1-3), of mx 0 "[]"] assms(4)
  by (auto simp: readline_def c_store_out)

lemma readline_zero_capacity_witness:
  "readline [] 0 (ibuf_of [10]) = Some (Inl (ArrayIndex ''out'' 0))"
  using readline_zero_capacity [where s = "ibuf_of [10]" and xs = "[]" and ys = "[]" and mx = 0]
  by (simp add: ibuf_of_inv ibuf_of_contents)

text \<open>C29. Bounds of readline: with 1 <= max <= the length of out, readline never indexes out of
  bounds and, when it returns, the count is in [0, max - 1], out keeps its length, out[count]
  is the terminator 0 and the ring buffer keeps its invariant.\<close>

theorem readline_bounds:
  assumes "ib_inv s" "1 \<le> mx" "mx \<le> int (length out)" "readline out mx s = Some r"
  shows "\<exists>len out' s'. r = Inr (len, out', s') \<and> 0 \<le> len \<and> len < mx
           \<and> length out' = length out \<and> out' ! nat len = 0 \<and> ib_inv s'"
  using readline_loop_bounds [of mx out 0 s r] assms by (fastforce simp: readline_def)

lemma readline_bounds_witness:
  "\<exists>len out' s'. readline (replicate 256 0) 256 (ibuf_of [104, 105, 10]) = Some (Inr (len, out', s'))
     \<and> 0 \<le> len \<and> len < 256 \<and> length out' = 256 \<and> out' ! nat len = 0"
proof -
  obtain r where r: "readline (replicate 256 0) 256 (ibuf_of [104, 105, 10]) = Some r"
    using readline_loop_line [of "ibuf_of [104, 105, 10]" "[104, 105]" "[]" 0 256 "replicate 256 0"]
    by (auto simp: readline_def ibuf_of_inv ibuf_of_contents)
  show ?thesis
    using readline_bounds [of "ibuf_of [104, 105, 10]" 256 "replicate 256 0" r] r
    by (auto simp: ibuf_of_inv)
qed

end
