(* ===== verification/Terminal.thy ===== *)
theory Terminal
  imports Framebuffer Input_Buffer
begin

text \<open>
  The terminal of \<^verbatim>\<open>src/kernel/terminal.c\<close>: \<open>terminal_write\<close> sends a NUL-terminated
  string to the framebuffer byte by byte, \<open>terminal_put\<close> one byte, \<open>terminal_init\<close>
  clears the screen and greets.  \<open>terminal_run\<close> is the foreground loop: it prints a
  prompt and then forever reads a line with \<open>readline\<close> and echoes it.  Its state is the
  console record: the framebuffer together with the input ring buffer.  A C string is a
  byte list; the model stops at the first NUL byte or at the end of the list, the end of a
  literal standing for its implicit terminator.  The abstract teletype \<open>tty_write\<close> is the screen's specification; the
  lemmas show that \<open>terminal_write\<close> refines it.
\<close>

definition bytes :: "string \<Rightarrow> u8 list" where
  "bytes str = map (\<lambda>ch. of_nat (of_char ch)) str"

record console = fb +
  ib :: ibuf

fun terminal_write :: "u8 list \<Rightarrow> 'a fb_scheme \<Rightarrow> 'a fb_scheme" where
  "terminal_write [] s = s"
| "terminal_write (c # cs) s = (if c = 0 then s else terminal_write cs (fb_write_char c s))"

definition terminal_put :: "u8 \<Rightarrow> 'a fb_scheme \<Rightarrow> 'a fb_scheme" where
  "terminal_put c s = fb_write_char c s"

definition terminal_init :: "'a fb_scheme \<Rightarrow> 'a fb_scheme" where
  "terminal_init s = terminal_write (bytes ''Welcome to my OS!'' @ [10]) (fb_clear s)"

text \<open>
  \<open>terminal_run\<close>: the prompt written before the loop, and one iteration of the loop on
  the caller's 256-byte \<open>buffer\<close> (whose contents persist across iterations).  An
  iteration whose \<open>readline\<close> never returns is \<open>None\<close>.
\<close>

definition terminal_run_start :: "'a console_scheme \<Rightarrow> 'a console_scheme" where
  "terminal_run_start s = terminal_write (bytes ''> '') s"

text \<open>The loop's output after \<open>readline\<close> returns: the echo of the line and a new prompt.\<close>

definition terminal_echo :: "u8 list \<Rightarrow> 'a fb_scheme \<Rightarrow> 'a fb_scheme" where
  "terminal_echo buf s =
     terminal_write ([10] @ bytes ''> '')
       (terminal_write buf (terminal_write ([10] @ bytes ''You typed: '') s))"

definition terminal_run_round ::
  "u8 list \<Rightarrow> 'a console_scheme \<Rightarrow> (ub + (u8 list \<times> 'a console_scheme)) option" where
  "terminal_run_round buf s =
     (case readline buf 256 (ib s) of
        None \<Rightarrow> None
      | Some (Inl e) \<Rightarrow> Some (Inl e)
      | Some (Inr (len, buf', ib')) \<Rightarrow>
          Some (Inr (buf', terminal_echo buf' (s\<lparr>ib := ib'\<rparr>))))"

text \<open>
  The whole of \<open>terminal_run\<close>: the prompt, then the \<open>while (1)\<close> loop as a
  \<^theory_text>\<open>partial_function (option)\<close> whose iterations are \<open>terminal_run_round\<close>.
  The loop has no exit, so the only results it can have are an error (undefined behaviour
  in some iteration) or \<open>None\<close>, running forever.
\<close>

partial_function (option) terminal_run_loop ::
  "u8 list \<Rightarrow> 'a console_scheme \<Rightarrow> (ub + 'a console_scheme) option" where
  "terminal_run_loop buf s =
     (case terminal_run_round buf s of
        None \<Rightarrow> None
      | Some (Inl e) \<Rightarrow> Some (Inl e)
      | Some (Inr (buf', s')) \<Rightarrow> terminal_run_loop buf' s')"

definition terminal_run :: "u8 list \<Rightarrow> 'a console_scheme \<Rightarrow> (ub + 'a console_scheme) option" where
  "terminal_run buf s = terminal_run_loop buf (terminal_run_start s)"

text \<open>
  Reading the screen back: the characters of the \<open>n\<close> cells from linear position \<open>p\<close>
  (cell \<open>p\<close> is byte \<open>2 p\<close> of video memory, its attribute byte \<open>2 p + 1\<close>).
\<close>

definition screen_text :: "'a fb_scheme \<Rightarrow> int \<Rightarrow> nat \<Rightarrow> u8 list" where
  "screen_text s p n = map (\<lambda>i. vga s (2 * (p + int i))) [0..<n]"

text \<open>
  The abstract specification of the screen (the spec's display sink, "write these bytes in
  order"): a teletype over linear positions \<open>0..1999\<close>, the character of each cell, a
  newline going to the start of the next row, every other byte stored at the cursor, both
  wrapping at the end of the screen; a C string is written up to its first NUL.
  \<open>tty_abs\<close> reads this abstract state from the framebuffer.
\<close>

type_synonym tty = "int \<times> (int \<Rightarrow> u8)"

definition tty_abs :: "'a fb_scheme \<Rightarrow> tty" where
  "tty_abs s = (cursor_pos s, \<lambda>i. vga s (2 * i))"

definition tty_put :: "u8 \<Rightarrow> tty \<Rightarrow> tty" where
  "tty_put c t = (case t of (p, cells) \<Rightarrow>
     if c = 10 then (((p div 80 + 1) mod 25) * 80, cells) else ((p + 1) mod 2000, cells(p := c)))"

definition tty_write :: "u8 list \<Rightarrow> tty \<Rightarrow> tty" where
  "tty_write xs t = fold tty_put (takeWhile (\<lambda>c. c \<noteq> 0) xs) t"

lemma terminal_write_more [simp]: "fb.more (terminal_write str s) = fb.more s"
  by (induction str arbitrary: s) auto

lemma terminal_write_fb_inv: "fb_inv s \<Longrightarrow> fb_inv (terminal_write str s)"
  by (induction str arbitrary: s) (auto simp: fb_write_char_inv)

lemma terminal_write_crt: "\<exists>t. io (terminal_write str s) = io s @ t \<and> crt_only t"
proof (induction str arbitrary: s)
  case Nil
  then show ?case by (rule exI [of _ "[]"]) simp
next
  case (Cons c cs)
  obtain t1 where t1: "io (fb_write_char c s) = io s @ t1" "crt_only t1"
    using fb_write_char_crt by blast
  obtain t2 where t2: "io (terminal_write cs (fb_write_char c s)) = io (fb_write_char c s) @ t2" "crt_only t2"
    using Cons.IH by blast
  show ?case
  proof (cases "c = 0")
    case True
    then show ?thesis by (intro exI [of _ "[]"]) simp
  next
    case False
    then show ?thesis using t1 t2 by (intro exI [of _ "t1 @ t2"]) simp
  qed
qed

lemma terminal_write_append:
  "0 \<notin> set xs \<Longrightarrow> terminal_write (xs @ ys) s = terminal_write ys (terminal_write xs s)"
  by (induction xs arbitrary: s) auto

lemma terminal_write_stop:
  "0 \<notin> set xs \<Longrightarrow> terminal_write (xs @ 0 # ys) s = terminal_write xs s"
  by (simp add: terminal_write_append)

lemma bytes_no_nul: "0 \<notin> set (bytes ''You typed: '')" "0 \<notin> set (bytes ''> '')"
  by (simp_all add: bytes_def)

lemma console_more_ib: "fb.more x = fb.more (y :: 'a console_scheme) \<Longrightarrow> ib x = ib y"
  by (cases x; cases y) simp

lemma terminal_write_ib [simp]: "ib (terminal_write str (s :: 'a console_scheme)) = ib s"
  by (rule console_more_ib) (rule terminal_write_more)

lemma fb_write_char_ib [simp]: "ib (fb_write_char c (s :: 'a console_scheme)) = ib s"
  by (rule console_more_ib) (rule fb_write_char_more)

subsection \<open>Writing text on the screen\<close>

text \<open>
  \<open>terminal_write\<close> of a string without NUL or newline that fits in the rest of the row:
  the cursor moves right by its length, the cells from the cursor on hold the string, and
  no video byte outside them changes.
\<close>

lemma terminal_write_row:
  assumes "fb_inv s" "0 \<notin> set xs" "10 \<notin> set xs" "cursor_col s + int (length xs) < 80"
  shows "cursor_row (terminal_write xs s) = cursor_row s
    \<and> cursor_col (terminal_write xs s) = cursor_col s + int (length xs)
    \<and> screen_text (terminal_write xs s) (cursor_pos s) (length xs) = xs
    \<and> (\<forall>j. j < 2 * cursor_pos s \<or> 2 * (cursor_pos s + int (length xs)) \<le> j \<longrightarrow>
           vga (terminal_write xs s) j = vga s j)"
  using assms
proof (induction xs arbitrary: s)
  case Nil
  then show ?case by (simp add: screen_text_def)
next
  case (Cons x xs)
  let ?s1 = "fb_write_char x s"
  have rc: "cursor_row ?s1 = cursor_row s" "cursor_col ?s1 = cursor_col s + 1"
    using fb_write_char_plain [of x s] Cons.prems by (auto simp: fb_inv_def fb_consts)
  have v1: "vga ?s1 j = (if j = 2 * cursor_pos s then x else if j = 2 * cursor_pos s + 1 then 7 else vga s j)" for j
    using Cons.prems(3) by (simp add: fb_write_char_cells)
  have IH: "cursor_row (terminal_write xs ?s1) = cursor_row ?s1
    \<and> cursor_col (terminal_write xs ?s1) = cursor_col ?s1 + int (length xs)
    \<and> screen_text (terminal_write xs ?s1) (cursor_pos ?s1) (length xs) = xs
    \<and> (\<forall>j. j < 2 * cursor_pos ?s1 \<or> 2 * (cursor_pos ?s1 + int (length xs)) \<le> j \<longrightarrow>
           vga (terminal_write xs ?s1) j = vga ?s1 j)"
    using Cons.IH [of ?s1] Cons.prems rc fb_write_char_inv [OF Cons.prems(1)] by simp
  have pos: "cursor_pos ?s1 = cursor_pos s + 1" using rc by (simp add: fb_consts)
  have w: "terminal_write (x # xs) s = terminal_write xs ?s1" using Cons.prems(2) by simp
  have first: "vga (terminal_write xs ?s1) (2 * cursor_pos s) = x"
    using IH pos v1 [of "2 * cursor_pos s"] by simp
  have "screen_text (terminal_write xs ?s1) (cursor_pos s) (length (x # xs)) =
        vga (terminal_write xs ?s1) (2 * cursor_pos s) # screen_text (terminal_write xs ?s1) (cursor_pos ?s1) (length xs)"
    unfolding screen_text_def pos by (simp add: upt_conv_Cons map_Suc_upt [symmetric] del: upt_Suc) (simp add: algebra_simps)
  then show ?case using IH first w rc pos v1 by auto
qed

lemma screen_text_frame:
  "(\<forall>j. j < 2 * (p + int n) \<longrightarrow> vga s' j = vga s j) \<Longrightarrow> screen_text s' p n = screen_text s p n"
  by (simp add: screen_text_def)

lemma screen_text_append:
  "screen_text s p (m + n) = screen_text s p m @ screen_text s (p + int m) n"
  by (induction n) (simp_all add: screen_text_def algebra_simps)

lemma terminal_write_row_frame:
  assumes "fb_inv s" "0 \<notin> set xs" "10 \<notin> set xs" "cursor_col s + int (length xs) < 80"
    and "p + int n \<le> cursor_pos s"
  shows "screen_text (terminal_write xs s) p n = screen_text s p n"
  using terminal_write_row [OF assms(1-4)] assms(5) by (intro screen_text_frame) auto

text \<open>A whole line from the start of a row that is not the last: the text, then a newline.\<close>

lemma terminal_write_line:
  assumes "fb_inv s" "cursor_col s = 0" "cursor_row s + 1 < 25"
    and "0 \<notin> set xs" "10 \<notin> set xs" "length xs < 80"
  shows "fb_inv (terminal_write (xs @ [10]) s)
    \<and> cursor_row (terminal_write (xs @ [10]) s) = cursor_row s + 1
    \<and> cursor_col (terminal_write (xs @ [10]) s) = 0
    \<and> screen_text (terminal_write (xs @ [10]) s) (cursor_pos s) (length xs) = xs
    \<and> (\<forall>p n. p + int n \<le> cursor_pos s \<longrightarrow>
         screen_text (terminal_write (xs @ [10]) s) p n = screen_text s p n)"
proof -
  let ?t = "terminal_write xs s"
  have w: "terminal_write (xs @ [10]) s = fb_write_char 10 ?t"
    using assms(4) by (simp add: terminal_write_append)
  have row: "cursor_row ?t = cursor_row s \<and> cursor_col ?t = cursor_col s + int (length xs)
    \<and> screen_text ?t (cursor_pos s) (length xs) = xs"
    using terminal_write_row [OF assms(1,4,5)] assms(2,6) by simp
  have nl: "cursor_row (fb_write_char 10 ?t) = cursor_row s + 1 \<and> cursor_col (fb_write_char 10 ?t) = 0
    \<and> vga (fb_write_char 10 ?t) = vga ?t"
    using fb_write_char_newline [of ?t] row assms(3) by simp
  have st: "screen_text (fb_write_char 10 ?t) = screen_text ?t"
    using nl by (simp add: screen_text_def fun_eq_iff)
  have frame: "p + int n \<le> cursor_pos s \<Longrightarrow> screen_text ?t p n = screen_text s p n" for p n
    using terminal_write_row_frame [OF assms(1,4,5)] assms(2,6) by simp
  have "fb_inv (fb_write_char 10 ?t)"
    using fb_write_char_inv terminal_write_fb_inv [OF assms(1)] by blast
  then show ?thesis using w row nl st frame by simp
qed

subsection \<open>Refinement of the teletype\<close>

lemma fb_write_char_refines:
  assumes "fb_inv s"
  shows "tty_abs (fb_write_char c s) = tty_put c (tty_abs s)"
proof -
  have r: "cursor_pos s div 80 = cursor_row s"
    using assms by (simp add: fb_inv_def fb_consts)
  have cells: "vga (fb_write_char c s) (2 * i) = (if c \<noteq> 10 \<and> i = cursor_pos s then c else vga s (2 * i))" for i
    by (simp add: fb_write_char_cells)
  show ?thesis
    using fb_write_char_cursor [OF assms, of c] r cells
    by (simp add: tty_abs_def tty_put_def fun_eq_iff fb_consts)
qed

text \<open>
  C28. One iteration of terminal_run's loop: when the input buffer holds a line (bytes xs
  without newline or NUL, then a newline), readline returns and the loop writes a newline,
  "You typed: ", the first 255 bytes of xs other than 0xFF, a newline and the prompt "> " to
  the screen, leaving in the buffer what followed the newline.
\<close>

theorem terminal_run_round_echo:
  assumes "ib_inv (ib s)" "ib_contents (ib s) = xs @ 10 # ys" "10 \<notin> set xs" "0 \<notin> set xs"
    and "length buf = 256"
  shows "\<exists>b buf'. terminal_run_round buf s =
           Some (Inr (buf', terminal_write ([10] @ bytes ''You typed: '' @ line_chars 255 xs @ [10] @ bytes ''> '')
                              (s\<lparr>ib := b\<rparr>)))
         \<and> ib_contents b = ys"
proof -
  let ?L = "line_chars 255 xs"
  have len: "length ?L < length buf" using assms(5) by simp
  obtain b where r: "readline buf 256 (ib s) =
           Some (Inr (int (length ?L), take 0 buf @ ?L @ [0] @ drop (0 + length ?L + 1) buf, b))"
    and b: "ib_inv b" "ib_contents b = ys"
    using readline_loop_line [OF assms(1-3), of 0 256 buf] len by (auto simp: readline_def)
  have z: "0 \<notin> set ?L" using assms(4) by (auto dest: in_set_takeD)
  have "terminal_write (?L @ [0] @ drop (length ?L + 1) buf) = terminal_write ?L"
    using z by (auto simp: terminal_write_stop)
  then show ?thesis
    using r b z by (auto simp: terminal_run_round_def terminal_echo_def terminal_write_append bytes_no_nul)
qed

lemma terminal_run_round_echo_witness:
  "\<exists>b buf'. terminal_run_round (replicate 256 0)
        \<lparr>io = [], cursor_row = 0, cursor_col = 0, vga = (\<lambda>_. 0), ib = ibuf_of [104, 105, 10]\<rparr> =
      Some (Inr (buf', terminal_write ([10] @ bytes ''You typed: '' @ [104, 105] @ [10] @ bytes ''> '')
         (\<lparr>io = [], cursor_row = 0, cursor_col = 0, vga = (\<lambda>_. 0), ib = b\<rparr>)))
     \<and> ib_contents b = []"
  using terminal_run_round_echo [where xs = "[104, 105]" and ys = "[]" and buf = "replicate 256 0"
      and s = "\<lparr>io = [], cursor_row = 0, cursor_col = 0, vga = (\<lambda>_. 0), ib = ibuf_of [104, 105, 10]\<rparr>"]
  by (simp add: ibuf_of_inv ibuf_of_contents)

text \<open>
  C36. Refinement of the screen: on a framebuffer with the cursor on the screen, writing any
  byte string with terminal_write is, in the abstraction tty_abs (linear cursor position
  and the character of each cell), the abstract teletype writing the string up to its
  first NUL; the cursor stays on the screen.
\<close>

theorem terminal_write_refines_tty:
  assumes "fb_inv s"
  shows "tty_abs (terminal_write xs s) = tty_write xs (tty_abs s) \<and> fb_inv (terminal_write xs s)"
  using assms
proof (induction xs arbitrary: s)
  case Nil
  then show ?case by (simp add: tty_write_def)
next
  case (Cons c xs)
  then show ?case
    using Cons.IH [OF fb_write_char_inv [OF Cons.prems]] fb_write_char_refines [OF Cons.prems]
    by (simp add: tty_write_def)
qed

lemma terminal_write_refines_tty_witness:
  "tty_abs (terminal_write [104, 105, 0, 33] fb_init) = (2, (\<lambda>i. 0)(0 := 104, 1 := 105))"
  using terminal_write_refines_tty [of fb_init "[104, 105, 0, 33]"]
  by (simp add: fb_init_def fb_inv_def fb_consts tty_abs_def tty_write_def tty_put_def)

end
