(* ===== verification/Keyboard.thy ===== *)
theory Keyboard
  imports Terminal
begin

text \<open>
  The keyboard driver of \<^verbatim>\<open>src/kernel/keyboard.c\<close>: the scan-code table \<open>sc_ascii\<close>
  (58 entries, scan codes 0x00 to 0x39) and the interrupt service routine, which reads
  the scan code from port 0x60 and, for a key press whose table entry is not 0, hands the
  character to \<open>terminal_put\<close>, that is, to the screen.  The table is indexed with the
  7-bit code of every press, so codes 58 to 127 read past its end: the model returns the
  \<open>ub\<close> value there.
\<close>

definition sc_ascii :: "u8 list" where
  "sc_ascii =
     [0, 27, 49, 50, 51, 52, 53, 54, 55, 56, 57, 48, 45, 61, 8,
      9, 113, 119, 101, 114, 116, 121, 117, 105, 111, 112, 91, 93, 10, 0,
      97, 115, 100, 102, 103, 104, 106, 107, 108, 59, 39, 96, 0, 92, 122,
      120, 99, 118, 98, 110, 109, 44, 46, 47, 0, 42, 0, 32]"

text \<open>Rows as in the source: \<open>0 ESC 1..9 0 - = BS\<close>; \<open>TAB q..p [ ] LF 0\<close>;
  \<open>a..l ; ' ` 0 \ z\<close>; \<open>x c v b n m , . / 0 * 0 SPACE\<close>.\<close>

definition keyboard_init :: "'a \<Rightarrow> 'a" where
  "keyboard_init s = s"

definition keyboard_isr :: "u8 \<Rightarrow> 'a fb_scheme \<Rightarrow> ub + 'a fb_scheme" where
  "keyboard_isr dev s =
     (let (sc, s1) = inb 0x60 dev s
      in if sc AND 0x80 = 0 then
           (case c_load ''sc_ascii'' sc_ascii (uint sc) of
              Inl e \<Rightarrow> Inl e
            | Inr c \<Rightarrow> (if c \<noteq> 0 then Inr (terminal_put c s1) else Inr s1))
         else Inr s1)"

text \<open>
  The decoder's contract (spec, Keyboard Scan Decoder): a raw byte gives an optional
  character; a release code (bit 7 set) or a table entry 0 gives none.  It is stated over the
  code's table and only for the codes the table covers; \<open>keyboard_isr\<close> inlines it.
\<close>

definition decode :: "u8 \<Rightarrow> u8 option" where
  "decode sc = (if 128 \<le> unat sc then None
                else if unat sc < length sc_ascii \<and> sc_ascii ! unat sc \<noteq> 0 then Some (sc_ascii ! unat sc)
                else None)"

lemma sc_ascii_length: "length sc_ascii = 58"
  by (simp add: sc_ascii_def)

lemma keyboard_isr_cases:
  "keyboard_isr sc s =
     (let s1 = s\<lparr>io := io s @ [Inb 0x60 sc]\<rparr>
      in if 128 \<le> unat sc then Inr s1
         else if unat sc < 58 then
           (if sc_ascii ! unat sc \<noteq> 0 then Inr (terminal_put (sc_ascii ! unat sc) s1) else Inr s1)
         else Inl (ArrayIndex ''sc_ascii'' (uint sc)))"
proof -
  have l: "uint sc < int (length sc_ascii) \<longleftrightarrow> unat sc < 58"
    unfolding sc_ascii_length uint_as_unat by (simp only: of_nat_less_iff)
  have n: "nat (uint sc) = unat sc" by (metis uint_nat nat_int)
  show ?thesis
    unfolding keyboard_isr_def inb_def Let_def c_load_def u8_and_0x80
    by (simp add: l n)
qed

lemma keyboard_isr_fb_inv:
  "keyboard_isr dev s = Inr s1 \<Longrightarrow> fb_inv s \<Longrightarrow> fb_inv s1"
  by (auto simp: keyboard_isr_cases Let_def terminal_put_def split: if_splits
           intro: fb_write_char_inv)

text \<open>
  C10. Scan-code decoding: keyboard_isr reads the scan code from port 0x60; a release code
  (bit 7 set) has no other effect; a press code within the table whose entry is not 0 writes
  that entry to the screen through terminal_put, an entry 0 has no other effect.  No code
  reaches the input ring buffer.
\<close>

theorem keyboard_isr_decode:
  assumes "unat sc < 58 \<or> 128 \<le> unat sc"
  shows "keyboard_isr sc s =
           Inr (if unat sc < 58 \<and> sc_ascii ! unat sc \<noteq> 0
                then terminal_put (sc_ascii ! unat sc) (s\<lparr>io := io s @ [Inb 0x60 sc]\<rparr>)
                else s\<lparr>io := io s @ [Inb 0x60 sc]\<rparr>)"
  using assms by (auto simp: keyboard_isr_cases Let_def)

lemma keyboard_isr_decode_witness:
  "keyboard_isr 0x1E fb_init = Inr (terminal_put 97 (fb_init\<lparr>io := [Inb 0x60 0x1E]\<rparr>))
   \<and> keyboard_isr 0x9E fb_init = Inr (fb_init\<lparr>io := [Inb 0x60 0x9E]\<rparr>)"
  using keyboard_isr_decode [of "0x1E" fb_init] keyboard_isr_decode [of "0x9E" fb_init]
  by (simp add: sc_ascii_def fb_init_def)

text \<open>
  C11. keyboard_isr indexes the 58-entry table with any 7-bit press code: for the press codes
  58 to 127 (Caps Lock, F1 to F10, the keypad, ...) it reads past the end of sc_ascii.
\<close>

theorem keyboard_isr_reads_past_table:
  assumes "58 \<le> unat sc" "unat sc < 128"
  shows "keyboard_isr sc s = Inl (ArrayIndex ''sc_ascii'' (uint sc))"
  using assms by (simp add: keyboard_isr_cases Let_def)

lemma keyboard_isr_reads_past_table_witness:
  "keyboard_isr 0x3A fb_init = Inl (ArrayIndex ''sc_ascii'' 58)"
  using keyboard_isr_reads_past_table [of "0x3A" fb_init] by simp

end
