(* ===== verification/Pic.thy ===== *)
theory Pic
  imports Port_IO
begin

text \<open>
  The 8259 interrupt-controller driver of \<^verbatim>\<open>src/kernel/pic.c\<close>: \<open>pic_remap\<close> issues the
  initialisation words ICW1 to ICW4 and the interrupt masks to the two cascaded
  controllers, \<open>pic_acknowledge\<close> the end-of-interrupt commands.  Both only append port
  writes to the trace; the lemmas give the exact sequence each one issues.
\<close>

definition PIC1 :: u16 where "PIC1 = 0x20"
definition PIC2 :: u16 where "PIC2 = 0xA0"
definition PIC1_COMMAND :: u16 where "PIC1_COMMAND = PIC1"
definition PIC2_COMMAND :: u16 where "PIC2_COMMAND = PIC2"
definition PIC1_DATA :: u16 where "PIC1_DATA = PIC1 + 1"
definition PIC2_DATA :: u16 where "PIC2_DATA = PIC2 + 1"

lemmas pic_ports = PIC1_def PIC2_def PIC1_COMMAND_def PIC2_COMMAND_def PIC1_DATA_def PIC2_DATA_def

text \<open>
  The \<open>int\<close> offsets are passed to \<open>outb\<close>'s \<open>u8int\<close> parameter: the conversion keeps
  the low byte (\<open>word_of_int\<close>).
\<close>

definition pic_remap :: "int \<Rightarrow> int \<Rightarrow> 'a hw_scheme \<Rightarrow> 'a hw_scheme" where
  "pic_remap offset1 offset2 s =
     outbs [(PIC1_COMMAND, 0x11), (PIC2_COMMAND, 0x11),
            (PIC1_DATA, word_of_int offset1), (PIC2_DATA, word_of_int offset2),
            (PIC1_DATA, 4), (PIC2_DATA, 2),
            (PIC1_DATA, 0x01), (PIC2_DATA, 0x01),
            (PIC1_DATA, 0), (PIC2_DATA, 0)] s"

definition pic_acknowledge :: "int \<Rightarrow> 'a hw_scheme \<Rightarrow> 'a hw_scheme" where
  "pic_acknowledge interrupt s =
     (let s' = (if interrupt \<ge> 40 then outb PIC2_COMMAND 0x20 s else s)
      in outb PIC1_COMMAND 0x20 s')"

text \<open>
  C12. Acknowledgment order: for a vector at or above the secondary controller's base (40)
  pic_acknowledge sends the end-of-interrupt command 0x20 to the secondary controller
  (port 0xA0) and then to the primary (port 0x20); below 40 only to the primary.  Nothing
  else of the state changes.
\<close>

theorem pic_acknowledge_order:
  "io (pic_acknowledge interrupt s) =
     io s @ (if 40 \<le> interrupt then [Outb 0xA0 0x20, Outb 0x20 0x20] else [Outb 0x20 0x20])
   \<and> hw.more (pic_acknowledge interrupt s) = hw.more s"
  by (simp add: pic_acknowledge_def Let_def pic_ports)

text \<open>
  C13. Initialisation handshake: pic_remap appends exactly ten port writes; the primary
  controller (ports 0x20/0x21) receives ICW1 0x11, ICW2 the low byte of offset1, ICW3 4
  (secondary on line 2), ICW4 0x01 (8086 mode) and the mask 0, in this order, and the
  secondary (ports 0xA0/0xA1) ICW1 0x11, the low byte of offset2, its cascade identity 2,
  0x01 and the mask 0.
\<close>

theorem pic_remap_handshake:
  "length (io (pic_remap offset1 offset2 s)) = length (io s) + 10
   \<and> dev_writes {0x20, 0x21} (drop (length (io s)) (io (pic_remap offset1 offset2 s))) =
       [(0x20, 0x11), (0x21, word_of_int offset1), (0x21, 4), (0x21, 1), (0x21, 0)]
   \<and> dev_writes {0xA0, 0xA1} (drop (length (io s)) (io (pic_remap offset1 offset2 s))) =
       [(0xA0, 0x11), (0xA1, word_of_int offset2), (0xA1, 2), (0xA1, 1), (0xA1, 0)]"
  by (simp add: pic_remap_def pic_ports)

end
