(* ===== verification/Interrupts.thy ===== *)
theory Interrupts
  imports Keyboard Pic
begin

text \<open>
  The interrupt descriptor table and the dispatcher of \<^verbatim>\<open>src/kernel/interrupts.c\<close>
  (types from \<^verbatim>\<open>src/include/interrupts.h\<close>).  The globals \<open>idt[256]\<close> and \<open>idt_ptr\<close>
  extend the console state to the kernel state \<open>kstate\<close>.  \<open>load_idt\<close> and the entry
  stub \<open>interrupt_handler_33\<close> are assembly outside \<^verbatim>\<open>src/\<close>: the first is the \<open>Lidt\<close>
  event of the trace, the second an address passed as a parameter, as is the address of
  \<open>idt\<close> itself.
\<close>

record idt_descriptor =
  offset_low :: u16
  selector :: u16
  zero :: u8
  type_attr :: u8
  offset_high :: u16

record idt_reg =
  limit :: u16
  base :: u32

definition idt_descriptor_zero :: idt_descriptor where
  "idt_descriptor_zero = \<lparr>offset_low = 0, selector = 0, zero = 0, type_attr = 0, offset_high = 0\<rparr>"

record kstate = console +
  idt :: "idt_descriptor list"
  idt_ptr :: idt_reg

text \<open>The power-on state: every global of the kernel is zero-initialised (BSS).\<close>

definition kstate_init :: kstate where
  "kstate_init =
     \<lparr>io = [], cursor_row = 0, cursor_col = 0, vga = (\<lambda>_. 0), ib = ibuf_init,
      idt = replicate 256 idt_descriptor_zero, idt_ptr = \<lparr>limit = 0, base = 0\<rparr>\<rparr>"

definition load_idt :: "idt_reg \<Rightarrow> 'a hw_scheme \<Rightarrow> 'a hw_scheme" where
  "load_idt r s = s\<lparr>io := io s @ [Lidt (base r) (limit r)]\<rparr>"

definition set_idt :: "int \<Rightarrow> u32 \<Rightarrow> 'a kstate_scheme \<Rightarrow> ub + 'a kstate_scheme" where
  "set_idt num addr s =
     (case c_store ''idt'' (idt s) num
             \<lparr>offset_low = ucast (addr AND 0xFFFF), selector = 0x08, zero = 0, type_attr = 0x8E,
              offset_high = ucast (drop_bit 16 addr AND 0xFFFF)\<rparr> of
        Inl e \<Rightarrow> Inl e
      | Inr t \<Rightarrow> Inr (s\<lparr>idt := t\<rparr>))"

text \<open>\<open>set_idt\<close>'s parameter \<open>base\<close> is called \<open>addr\<close> here, \<open>base\<close> being the field of \<open>idt_reg\<close>.\<close>

text \<open>
  \<open>interrupts_install_idt\<close>, with the address of \<open>interrupt_handler_33\<close> and of \<open>idt\<close> as
  parameters; \<open>sizeof(idt)\<close> is 256 packed 8-byte descriptors.
\<close>

definition interrupts_install_idt :: "u32 \<Rightarrow> u32 \<Rightarrow> 'a kstate_scheme \<Rightarrow> ub + 'a kstate_scheme" where
  "interrupts_install_idt handler_33 idt_addr s =
     (case set_idt 33 handler_33 s of
        Inl e \<Rightarrow> Inl e
      | Inr s1 \<Rightarrow>
          (let s2 = s1\<lparr>idt_ptr := \<lparr>limit = of_nat (256 * 8) - 1, base = idt_addr\<rparr>\<rparr>;
               s3 = load_idt (idt_ptr s2) s2
           in Inr (pic_remap 32 40 s3)))"

text \<open>
  \<open>interrupt_handler\<close>, called by the entry stub with the vector number; \<open>dev\<close> is the
  byte the keyboard controller presents at port 0x60.
\<close>

definition interrupt_handler :: "u32 \<Rightarrow> u8 \<Rightarrow> 'a kstate_scheme \<Rightarrow> ub + 'a kstate_scheme" where
  "interrupt_handler interrupt dev s =
     (if interrupt = 33 then
        (case keyboard_isr dev s of
           Inl e \<Rightarrow> Inl e
         | Inr s1 \<Rightarrow> Inr (pic_acknowledge (uint interrupt) s1))
      else Inr s)"

text \<open>How the processor reads a gate's handler address back from its two halves.\<close>

definition gate_address :: "idt_descriptor \<Rightarrow> u32" where
  "gate_address d = push_bit 16 (ucast (offset_high d)) OR ucast (offset_low d)"

text \<open>The descriptor \<open>set_idt\<close> writes.\<close>

abbreviation idt_gate :: "u32 \<Rightarrow> idt_descriptor" where
  "idt_gate addr \<equiv> \<lparr>offset_low = ucast (addr AND 0xFFFF), selector = 0x08, zero = 0, type_attr = 0x8E,
                    offset_high = ucast (drop_bit 16 addr AND 0xFFFF)\<rparr>"

subsection \<open>Lemmas\<close>

lemma kstate_more_fields:
  "fb.more x = fb.more (y :: 'a kstate_scheme) \<Longrightarrow> ib x = ib y \<and> idt x = idt y \<and> idt_ptr x = idt_ptr y"
  by (cases x; cases y) simp

lemma keyboard_isr_more:
  "keyboard_isr dev s = Inr s1 \<Longrightarrow> fb.more s1 = fb.more s"
  by (auto simp: keyboard_isr_cases Let_def terminal_put_def split: if_splits)

lemma gate_address_split:
  "gate_address \<lparr>offset_low = ucast (addr AND 0xFFFF), selector = sel, zero = z, type_attr = ta,
                  offset_high = ucast (drop_bit 16 addr AND 0xFFFF)\<rparr> = (addr :: u32)"
proof -
  have m: "(0xFFFF :: u32) = mask 16" by (simp add: mask_eq_exp_minus_1)
  show ?thesis
    unfolding gate_address_def m
    by (rule bit_word_eqI) (auto simp: bit_simps)
qed

lemma set_idt_in:
  "0 \<le> num \<Longrightarrow> num < int (length (idt s)) \<Longrightarrow>
   set_idt num addr s = Inr (s\<lparr>idt := (idt s)[nat num := idt_gate addr]\<rparr>)"
  by (simp add: set_idt_def c_store_in)

lemma interrupts_install_idt_ok:
  assumes "length (idt s) = 256"
  shows "interrupts_install_idt h a s =
           Inr (pic_remap 32 40 (load_idt \<lparr>limit = 2047, base = a\<rparr>
                 (s\<lparr>idt := (idt s)[33 := idt_gate h], idt_ptr := \<lparr>limit = 2047, base = a\<rparr>\<rparr>)))"
  using assms by (simp add: interrupts_install_idt_def set_idt_in Let_def)

lemma interrupt_handler_other:
  "interrupt \<noteq> 33 \<Longrightarrow> interrupt_handler interrupt dev s = Inr s"
  by (simp add: interrupt_handler_def)

lemma interrupt_handler_33:
  "interrupt_handler 33 dev s =
     (case keyboard_isr dev s of Inl e \<Rightarrow> Inl e | Inr s1 \<Rightarrow> Inr (s1\<lparr>io := io s1 @ [Outb 0x20 0x20]\<rparr>))"
  by (simp add: interrupt_handler_def pic_acknowledge_def pic_ports Let_def split: sum.split)

lemma interrupt_handler_fields:
  "interrupt_handler v dev s = Inr s' \<Longrightarrow> ib s' = ib s \<and> idt s' = idt s \<and> idt_ptr s' = idt_ptr s"
  by (cases "v = 33")
     (auto simp: interrupt_handler_other interrupt_handler_33 dest!: keyboard_isr_more kstate_more_fields
           split: sum.splits)

lemma interrupt_handler_fb_inv:
  "interrupt_handler v dev s = Inr s' \<Longrightarrow> fb_inv s \<Longrightarrow> fb_inv s'"
  by (cases "v = 33")
     (auto simp: interrupt_handler_other interrupt_handler_33 split: sum.splits
           dest: keyboard_isr_fb_inv)

subsection \<open>Properties\<close>

text \<open>
  C14. Installation on the boot-time table (all 256 entries zero) succeeds, fills entry 33
  with a present 32-bit interrupt gate (selector 0x08, attributes 0x8E) for the handler and
  leaves the 255 other entries zero; the table register gets limit 2047 and the table's
  address.
\<close>

theorem install_idt_populates_only_33:
  assumes "idt s = replicate 256 idt_descriptor_zero"
  shows "\<exists>s'. interrupts_install_idt h a s = Inr s'
           \<and> (\<forall>i < 256. idt s' ! i = (if i = 33 then idt_gate h else idt_descriptor_zero))
           \<and> length (idt s') = 256 \<and> idt_ptr s' = \<lparr>limit = 2047, base = a\<rparr>"
  using assms by (simp add: interrupts_install_idt_ok load_idt_def pic_remap_def nth_list_update)

lemma install_idt_populates_only_33_witness:
  "\<exists>s'. interrupts_install_idt 0x00101234 0x00105000 kstate_init = Inr s'
        \<and> idt s' ! 33 = idt_gate 0x00101234 \<and> idt s' ! 32 = idt_descriptor_zero"
  using install_idt_populates_only_33 [where h = "0x00101234" and a = "0x00105000" and s = kstate_init]
  by (auto simp: kstate_init_def)

text \<open>
  C15. Handler-address roundtrip: set_idt on an entry of the table stores the handler address
  split into offset_low and offset_high such that the processor's reading back of the two
  halves gives the address again, with selector 0x08 and attributes 0x8E.
\<close>

theorem set_idt_gate_roundtrip:
  assumes "0 \<le> num" "num < int (length (idt s))" "set_idt num addr s = Inr s'"
  shows "gate_address (idt s' ! nat num) = addr \<and> selector (idt s' ! nat num) = 0x08
         \<and> type_attr (idt s' ! nat num) = 0x8E"
  using assms by (auto simp: set_idt_in gate_address_split)

lemma set_idt_gate_roundtrip_witness:
  "gate_address (idt (kstate_init\<lparr>idt := (replicate 256 idt_descriptor_zero)[33 := idt_gate 0xC0DE1234]\<rparr>) ! 33)
     = 0xC0DE1234"
proof -
  have "set_idt 33 0xC0DE1234 kstate_init =
          Inr (kstate_init\<lparr>idt := (replicate 256 idt_descriptor_zero)[33 := idt_gate 0xC0DE1234]\<rparr>)"
    by (simp add: set_idt_in kstate_init_def)
  from set_idt_gate_roundtrip [OF _ _ this] show ?thesis by (simp add: kstate_init_def)
qed

text \<open>
  C16. Ordering of installation: interrupts_install_idt hands the table to the processor
  (the Lidt event, base and limit 2047) before any write to the interrupt controllers, and
  then issues exactly the remap sequence for vector bases 32 and 40.
\<close>

theorem install_idt_loads_before_remap:
  assumes "length (idt s) = 256"
  shows "\<exists>s'. interrupts_install_idt h a s = Inr s'
           \<and> io s' = io s @ [Lidt a 2047] @ io (pic_remap 32 40 \<lparr>io = []\<rparr>)"
  using assms by (simp add: interrupts_install_idt_ok load_idt_def pic_remap_def)

lemma install_idt_loads_before_remap_witness:
  "\<exists>s'. interrupts_install_idt 1 2 kstate_init = Inr s' \<and> hd (io s') = Lidt 2 2047"
  using install_idt_loads_before_remap [where s = kstate_init and h = 1 and a = 2]
  by (auto simp: kstate_init_def)

text \<open>
  C17. Unrecognised vectors: interrupt_handler on any vector other than 33 does nothing at
  all; in particular it sends no end-of-interrupt to the controllers.
\<close>

theorem interrupt_handler_ignores_other_vectors:
  assumes "interrupt \<noteq> 33"
  shows "interrupt_handler interrupt dev s = Inr s"
  using assms by (rule interrupt_handler_other)

lemma interrupt_handler_ignores_other_vectors_witness:
  "interrupt_handler 32 0x1E kstate_init = Inr kstate_init"
  using interrupt_handler_ignores_other_vectors [of 32] by simp

text \<open>
  C22. Keyboard vector: for a scan code the table covers (or a release code), interrupt
  handler 33 runs keyboard_isr and then acknowledges exactly once, with one end-of-interrupt
  to the primary controller only (vector 33 is below 40); the input ring buffer, the
  descriptor table and the table register are unchanged.
\<close>

theorem interrupt_handler_keyboard:
  assumes "unat dev < 58 \<or> 128 \<le> unat dev"
  shows "\<exists>s1. keyboard_isr dev s = Inr s1 \<and> interrupt_handler 33 dev s = Inr (s1\<lparr>io := io s1 @ [Outb 0x20 0x20]\<rparr>)
           \<and> ib s1 = ib s \<and> idt s1 = idt s \<and> idt_ptr s1 = idt_ptr s"
proof -
  have "\<exists>s1. keyboard_isr dev s = Inr s1"
    using assms by (auto simp: keyboard_isr_cases Let_def)
  then obtain s1 where k: "keyboard_isr dev s = Inr s1" ..
  then show ?thesis using keyboard_isr_more [OF k] kstate_more_fields by (simp add: interrupt_handler_33)
qed

lemma interrupt_handler_keyboard_witness:
  "\<exists>s1. keyboard_isr 0x9E kstate_init = Inr s1
     \<and> interrupt_handler 33 0x9E kstate_init = Inr (s1\<lparr>io := io s1 @ [Outb 0x20 0x20]\<rparr>)
     \<and> ib s1 = ibuf_init"
  using interrupt_handler_keyboard [of "0x9E" kstate_init] by (auto simp: kstate_init_def)

text \<open>
  C23. Unhandled lines are enabled: after installation on the boot-time table the last mask
  written to each controller is 0 (all sixteen lines enabled), while of the vectors 32 to 47
  those lines raise only 33 has a present gate: the others have attribute byte 0.
\<close>

theorem install_idt_unmasks_unhandled_lines:
  assumes "idt s = replicate 256 idt_descriptor_zero"
  shows "\<exists>s'. interrupts_install_idt h a s = Inr s'
           \<and> last (dev_writes {0x21} (io s')) = (0x21, 0) \<and> last (dev_writes {0xA1} (io s')) = (0xA1, 0)
           \<and> (\<forall>v \<in> {32..47}. v \<noteq> 33 \<longrightarrow> type_attr (idt s' ! v) = 0)"
  using assms by (simp add: interrupts_install_idt_ok load_idt_def pic_remap_def pic_ports
                            idt_descriptor_zero_def nth_list_update)

lemma install_idt_unmasks_unhandled_lines_witness:
  "\<exists>s'. interrupts_install_idt 1 2 kstate_init = Inr s'
     \<and> type_attr (idt s' ! 32) = 0 \<and> last (dev_writes {0x21} (io s')) = (0x21, 0)"
  using install_idt_unmasks_unhandled_lines [where s = kstate_init and h = 1 and a = 2]
  by (auto simp: kstate_init_def)

end
