(* ===== verification/Pic_Device.thy ===== *)
theory Pic_Device
  imports Pic Framebuffer
begin

text \<open>
  The two 8259A controllers as the kernel's environment, from the Intel 8259A data sheet:
  this theory models no code of \<^verbatim>\<open>src/\<close>, it is the device contract against which the
  writes of \<^verbatim>\<open>pic.c\<close> are checked.  A controller is a state machine over the writes to
  its command port (\<open>base\<close>) and data port (\<open>base + 1\<close>): a command byte with bit 4 set is
  ICW1 and restarts initialisation (bit 1 clear: cascaded, ICW3 follows; bit 0 set: ICW4
  follows); the data writes that follow are ICW2 (the vector base, bits 3-7), ICW3 (on the
  primary, a bit per line that carries a secondary; on a secondary, its cascade identity in
  bits 0-2) and ICW4 (bit 0: 8086 mode, in which the controller supplies a vector; clear,
  or with no ICW4, 8080 mode, in which it does not); once initialised the mask register is
  clear and each data write is OCW1, a new mask.  \<open>Ready b c w m\<close> holds the base, the
  ICW3 and ICW4 words and the mask.
  Command bytes with bit 4 clear (OCW2, e.g. the end-of-interrupt 0x20) leave the
  programming unchanged.  \<open>pic_replay\<close> runs the primary (ports 0x20/0x21) and the
  secondary (0xA0/0xA1) over a port trace; \<open>irq_vector\<close> is the vector a request on
  line \<open>k\<close> is delivered as, \<open>None\<close> when the line is masked or the controller is not
  ready, when the controller is in 8080 mode, when the primary line is declared a cascade
  input (no device's vector comes from it), or, for the secondary's lines 8-15, unless the
  primary declares its line 2 a cascade input and the secondary's identity is 2: on the
  PC/AT the secondary's output is wired to line 2 of the primary.
\<close>

datatype pic_mode = Uninit | Want_icw2 bool bool | Want_icw3 u8 bool | Want_icw4 u8 u8 | Ready u8 u8 u8 u8

definition pic_port_write :: "u16 \<Rightarrow> u16 \<Rightarrow> u8 \<Rightarrow> pic_mode \<Rightarrow> pic_mode" where
  "pic_port_write cmd p v m =
     (if p = cmd then (if bit v 4 then Want_icw2 (\<not> bit v 1) (bit v 0) else m)
      else if p = cmd + 1 then
        (case m of
           Uninit \<Rightarrow> Uninit
         | Want_icw2 n3 n4 \<Rightarrow>
             (if n3 then Want_icw3 (v AND 0xF8) n4
              else if n4 then Want_icw4 (v AND 0xF8) 0 else Ready (v AND 0xF8) 0 0 0)
         | Want_icw3 b n4 \<Rightarrow> (if n4 then Want_icw4 b v else Ready b v 0 0)
         | Want_icw4 b c \<Rightarrow> Ready b c v 0
         | Ready b c w _ \<Rightarrow> Ready b c w v)
      else m)"

fun pic_event :: "pic_mode \<times> pic_mode \<Rightarrow> io_event \<Rightarrow> pic_mode \<times> pic_mode" where
  "pic_event (m1, m2) (Outb p v) = (pic_port_write 0x20 p v m1, pic_port_write 0xA0 p v m2)"
| "pic_event ms _ = ms"

definition pic_replay_from :: "pic_mode \<times> pic_mode \<Rightarrow> trace \<Rightarrow> pic_mode \<times> pic_mode" where
  "pic_replay_from ms t = foldl pic_event ms t"

abbreviation pic_replay :: "trace \<Rightarrow> pic_mode \<times> pic_mode" where
  "pic_replay t \<equiv> pic_replay_from (Uninit, Uninit) t"

definition irq_vector :: "pic_mode \<times> pic_mode \<Rightarrow> nat \<Rightarrow> u8 option" where
  "irq_vector ms k =
     (case ms of
        (Ready b1 c1 w1 mask1, m2) \<Rightarrow>
          if \<not> bit w1 0 then None
          else if k < 8 then (if k = 2 \<or> bit c1 k \<or> bit mask1 k then None else Some (b1 + of_nat k))
          else if k < 16 then
            (case m2 of
               Ready b2 c2 w2 mask2 \<Rightarrow>
                 (if bit c1 2 \<and> c2 AND 7 = 2 \<and> bit w2 0 \<and> \<not> bit mask1 2 \<and> \<not> bit mask2 (k - 8)
                  then Some (b2 + of_nat (k - 8)) else None)
             | _ \<Rightarrow> None)
          else None
      | _ \<Rightarrow> None)"

text \<open>Events that leave both controllers' programming unchanged.\<close>

definition pic_neutral :: "io_event \<Rightarrow> bool" where
  "pic_neutral e = (case e of
      Outb p v \<Rightarrow> p \<notin> {0x20, 0x21, 0xA0, 0xA1} \<or> (p \<in> {0x20, 0xA0} \<and> \<not> bit v 4)
    | _ \<Rightarrow> True)"

subsection \<open>Lemmas\<close>

lemma pic_replay_from_append [simp]:
  "pic_replay_from ms (t @ u) = pic_replay_from (pic_replay_from ms t) u"
  by (simp add: pic_replay_from_def)

lemma pic_replay_from_neutral:
  "\<forall>e \<in> set t. pic_neutral e \<Longrightarrow> pic_replay_from ms t = ms"
proof (induction t arbitrary: ms rule: rev_induct)
  case Nil
  then show ?case by (simp add: pic_replay_from_def)
next
  case (snoc e t)
  then show ?case
    by (cases ms; cases e) (auto simp: pic_replay_from_def pic_neutral_def pic_port_write_def)
qed

lemma crt_only_neutral: "crt_only t \<Longrightarrow> \<forall>e \<in> set t. pic_neutral e"
  by (auto simp: crt_only_def pic_neutral_def)

lemma pic_remap_replay:
  "pic_replay_from ms (drop (length (io s)) (io (pic_remap o1 o2 s))) =
     (Ready (word_of_int o1 AND 0xF8) 4 1 0, Ready (word_of_int o2 AND 0xF8) 2 1 0)"
  by (cases ms) (simp add: pic_remap_def pic_ports pic_replay_from_def pic_port_write_def)

lemma pic_acknowledge_replay:
  "pic_replay_from ms (drop (length (io s)) (io (pic_acknowledge i s))) = ms"
  by (rule pic_replay_from_neutral) (simp add: pic_acknowledge_def Let_def pic_ports pic_neutral_def)

lemma irq_vector_32_40:
  assumes "k < 16" "k \<noteq> 2"
  shows "irq_vector (Ready 32 4 1 0, Ready 40 2 1 0) k = Some (32 + of_nat k)"
proof (cases "k < 8")
  case True
  then have "k = 0 \<or> k = 1 \<or> k = 3 \<or> k = 4 \<or> k = 5 \<or> k = 6 \<or> k = 7"
    using assms(2) by linarith
  then have "\<not> bit (4 :: u8) k" by auto
  then show ?thesis using assms True by (simp add: irq_vector_def)
next
  case False
  then have "(40 :: u8) + of_nat (k - 8) = 32 + of_nat k" by (simp add: of_nat_diff)
  then show ?thesis using assms False by (simp add: irq_vector_def)
qed

subsection \<open>Properties\<close>

text \<open>
  C34. The controllers as pic_remap 32 40 programs them: whatever their state before, the
  ten writes leave both initialised in 8086 mode with vector bases 32 and 40, the primary
  declaring line 2 (only) a cascade input, the secondary with identity 2, and no line
  masked, so a request on any line k other than the cascade line 2 is delivered as vector
  32 + k; the end-of-interrupt commands of pic_acknowledge leave this programming unchanged.
\<close>

theorem pic_remap_vectors:
  "pic_replay_from ms (drop (length (io s)) (io (pic_remap 32 40 s))) = (Ready 32 4 1 0, Ready 40 2 1 0)
   \<and> (\<forall>k < 16. k \<noteq> 2 \<longrightarrow> irq_vector (Ready 32 4 1 0, Ready 40 2 1 0) k = Some (32 + of_nat k))
   \<and> pic_replay_from (Ready 32 4 1 0, Ready 40 2 1 0) (drop (length (io s)) (io (pic_acknowledge i s))) =
       (Ready 32 4 1 0, Ready 40 2 1 0)"
  using pic_remap_replay [of ms s 32 40] irq_vector_32_40 pic_acknowledge_replay by simp

lemma pic_remap_vectors_witness:
  "pic_replay (io (pic_remap 32 40 \<lparr>io = []\<rparr>)) = (Ready 32 4 1 0, Ready 40 2 1 0)
   \<and> irq_vector (Ready 32 4 1 0, Ready 40 2 1 0) 1 = Some 33"
  using pic_remap_vectors [of "(Uninit, Uninit)" "\<lparr>io = []\<rparr>"] by simp

end
