(* ===== verification/System.thy ===== *)
theory System
  imports Interrupts Pic_Device
begin

text \<open>
  The whole kernel of \<^verbatim>\<open>src/kernel/kernel.c\<close>.  \<open>kernel_boot\<close> is \<open>kernel_main\<close> up to
  its endless loop, followed by the prompt \<open>terminal_run\<close> writes before its own loop.
  From then on two contexts interleave:
  \<^item> interrupt context: \<open>interrupt_handler\<close> for any vector and any byte at port 0x60,
    run to completion (the controller does not re-deliver a line before its EOI, and the
    handler runs with interrupts off);
  \<^item> foreground context: \<open>terminal_run\<close>'s loop, one iteration of \<open>readline\<close>'s
    \<open>while (1)\<close> at a time (\<open>fg_step\<close>): one \<open>getc_nonblock\<close> and the branch on its
    result; when \<open>readline\<close> returns, \<open>terminal_run\<close> echoes the line and calls it
    again.  The foreground's own state is \<open>terminal_run\<close>'s array \<open>buffer\<close>,
    \<open>readline\<close>'s \<open>count\<close>, and the number of lines returned so far (a ghost counter).
  \<open>sys_step\<close> is the interleaving, \<open>sys_reachable\<close> the states reachable from power-on.
  \<open>key_run\<close> delivers a sequence of keyboard interrupts; the lemmas relate it to the
  screen's abstraction.
\<close>

definition kernel_boot :: "u32 \<Rightarrow> u32 \<Rightarrow> kstate \<Rightarrow> ub + kstate" where
  "kernel_boot handler_33 idt_addr s =
     (let s1 = terminal_write (bytes ''MyOS Booting...'' @ [10]) (terminal_init s)
      in case interrupts_install_idt handler_33 idt_addr s1 of
           Inl e \<Rightarrow> Inl e
         | Inr s2 \<Rightarrow>
             Inr (terminal_run_start (terminal_write (bytes ''Ready.'' @ [10] @ bytes ''> '') (keyboard_init s2))))"

text \<open>The state after the two banner lines, before the descriptor table is installed.\<close>

abbreviation boot_banner :: kstate where
  "boot_banner \<equiv> terminal_write (bytes ''MyOS Booting...'' @ [10]) (terminal_init kstate_init)"

datatype fg_state = Reading "u8 list" int nat

definition fg_step :: "kstate \<times> fg_state \<Rightarrow> ub + (kstate \<times> fg_state)" where
  "fg_step st =
     (case st of (s, Reading buf count n) \<Rightarrow>
        (case getc_nonblock (ib s) of
           Inl e \<Rightarrow> Inl e
         | Inr (c, b) \<Rightarrow>
             (let s' = s\<lparr>ib := b\<rparr>
              in if c = -1 then Inr (s', Reading buf count n)
                 else if c = 10 then
                   (case c_store ''out'' buf count 0 of
                      Inl e \<Rightarrow> Inl e
                    | Inr buf' \<Rightarrow> Inr (terminal_echo buf' s', Reading buf' 0 (Suc n)))
                 else if count < 256 - 1 then
                   (case c_store ''out'' buf count (int_to_char c) of
                      Inl e \<Rightarrow> Inl e
                    | Inr buf' \<Rightarrow> Inr (s', Reading buf' (count + 1) n))
                 else Inr (s', Reading buf count n))))"

text \<open>A run of keyboard interrupts (vector 33) with the given scan codes, in order.\<close>

fun key_run :: "u8 list \<Rightarrow> kstate \<Rightarrow> ub + kstate" where
  "key_run [] s = Inr s"
| "key_run (sc # scs) s = (case interrupt_handler 33 sc s of Inl e \<Rightarrow> Inl e | Inr s' \<Rightarrow> key_run scs s')"

inductive sys_step :: "kstate \<times> fg_state \<Rightarrow> kstate \<times> fg_state \<Rightarrow> bool" where
  irq: "interrupt_handler v dev s = Inr s' \<Longrightarrow> sys_step (s, f) (s', f)"
| fg: "fg_step st = Inr st' \<Longrightarrow> sys_step st st'"

inductive sys_reachable :: "u32 \<Rightarrow> u32 \<Rightarrow> kstate \<times> fg_state \<Rightarrow> bool" for h a where
  boot: "kernel_boot h a kstate_init = Inr s \<Longrightarrow> length buf = 256 \<Longrightarrow> sys_reachable h a (s, Reading buf 0 0)"
| step: "sys_reachable h a st \<Longrightarrow> sys_step st st' \<Longrightarrow> sys_reachable h a st'"

text \<open>The descriptor table as installation leaves it, and the system invariant.\<close>

definition boot_idt :: "u32 \<Rightarrow> idt_descriptor list" where
  "boot_idt h = (replicate 256 idt_descriptor_zero)[33 := idt_gate h]"

definition sys_inv :: "u32 \<Rightarrow> u32 \<Rightarrow> kstate \<times> fg_state \<Rightarrow> bool" where
  "sys_inv h a st =
     (case st of (s, Reading buf count n) \<Rightarrow>
        ib s = ibuf_init \<and> count = 0 \<and> n = 0 \<and> length buf = 256 \<and> idt s = boot_idt h
        \<and> idt_ptr s = \<lparr>limit = 2047, base = a\<rparr> \<and> fb_inv s)"

inductive_cases sys_step_cases: "sys_step st st'"

subsection \<open>The system invariant\<close>

lemma boot_banner_facts:
  "fb_inv boot_banner \<and> ib boot_banner = ibuf_init \<and> idt boot_banner = replicate 256 idt_descriptor_zero
   \<and> crt_only (io boot_banner) \<and> cursor_row boot_banner = 2 \<and> cursor_col boot_banner = 0
   \<and> screen_text boot_banner 0 17 = bytes ''Welcome to my OS!''
   \<and> screen_text boot_banner 80 15 = bytes ''MyOS Booting...''"
proof -
  let ?W = "bytes ''Welcome to my OS!''" and ?M = "bytes ''MyOS Booting...''"
  let ?S0 = "fb_clear kstate_init" and ?S1 = "terminal_write (bytes ''Welcome to my OS!'' @ [10]) (fb_clear kstate_init)"
  have b: "0 \<notin> set ?W" "10 \<notin> set ?W" "length ?W = 17" "0 \<notin> set ?M" "10 \<notin> set ?M" "length ?M = 15"
    by (simp_all add: bytes_def)
  have s0: "fb_inv ?S0" "cursor_row ?S0 = 0" "cursor_col ?S0 = 0"
    by (rule fb_clear_inv) (simp_all add: fb_clear_def)
  have s1: "fb_inv ?S1" "cursor_row ?S1 = 1" "cursor_col ?S1 = 0" "screen_text ?S1 0 17 = ?W"
    using terminal_write_line [OF s0(1) s0(3), of ?W] s0 b by simp_all
  have s2: "fb_inv boot_banner" "cursor_row boot_banner = 2" "cursor_col boot_banner = 0"
    "screen_text boot_banner 80 15 = ?M" "screen_text boot_banner 0 17 = ?W"
    using terminal_write_line [OF s1(1) s1(3), of ?M] s1 b by (simp_all add: fb_consts terminal_init_def)
  have m: "fb.more boot_banner = fb.more kstate_init"
    by (simp only: terminal_init_def terminal_write_more fb_clear_more)
  obtain ta where ta: "io ?S0 = io kstate_init @ ta" "crt_only ta" using fb_clear_crt by blast
  obtain tb where tb: "io ?S1 = io ?S0 @ tb" "crt_only tb" using terminal_write_crt by blast
  obtain tc where tc: "io boot_banner = io ?S1 @ tc" "crt_only tc"
    using terminal_write_crt by (simp add: terminal_init_def) blast
  have "crt_only (io boot_banner)" using ta tb tc by (simp add: kstate_init_def)
  then show ?thesis using s2 kstate_more_fields [OF m] by (simp add: kstate_init_def)
qed

lemma kernel_boot_from_banner:
  "kernel_boot h a kstate_init =
     Inr (terminal_write (bytes ''> '') (terminal_write (bytes ''Ready.'' @ [10] @ bytes ''> '')
       (pic_remap 32 40 (load_idt \<lparr>limit = 2047, base = a\<rparr>
          (boot_banner\<lparr>idt := (boot_idt h), idt_ptr := \<lparr>limit = 2047, base = a\<rparr>\<rparr>)))))"
  using interrupts_install_idt_ok [of boot_banner h a] boot_banner_facts
  by (simp add: kernel_boot_def Let_def terminal_run_start_def keyboard_init_def boot_idt_def)

lemma kernel_boot_ok:
  "\<exists>s. kernel_boot h a kstate_init = Inr s \<and> ib s = ibuf_init \<and> idt s = boot_idt h
     \<and> idt_ptr s = \<lparr>limit = 2047, base = a\<rparr> \<and> fb_inv s
     \<and> (\<exists>t1 t2. io s = t1 @ [Lidt a 2047] @ io (pic_remap 32 40 \<lparr>io = []\<rparr>) @ t2 \<and> crt_only t1 \<and> crt_only t2)"
proof -
  let ?s2 = "pic_remap 32 40 (load_idt \<lparr>limit = 2047, base = a\<rparr>
               (boot_banner\<lparr>idt := (boot_idt h), idt_ptr := \<lparr>limit = 2047, base = a\<rparr>\<rparr>))"
  let ?s3 = "terminal_write (bytes ''> '') (terminal_write (bytes ''Ready.'' @ [10] @ bytes ''> '') ?s2)"
  have f: "fb_inv ?s2" "ib ?s2 = ibuf_init" "idt ?s2 = boot_idt h" "idt_ptr ?s2 = \<lparr>limit = 2047, base = a\<rparr>"
    "io ?s2 = io boot_banner @ [Lidt a 2047] @ io (pic_remap 32 40 \<lparr>io = []\<rparr>)"
    using boot_banner_facts by (simp_all add: fb_inv_def load_idt_def pic_remap_def)
  have m3: "fb.more ?s3 = fb.more ?s2" by (simp only: terminal_write_more)
  obtain td where td: "io (terminal_write (bytes ''Ready.'' @ [10] @ bytes ''> '') ?s2) = io ?s2 @ td" "crt_only td"
    using terminal_write_crt by blast
  obtain te where te: "io ?s3 = io (terminal_write (bytes ''Ready.'' @ [10] @ bytes ''> '') ?s2) @ te" "crt_only te"
    using terminal_write_crt by blast
  have io3: "io ?s3 = io boot_banner @ [Lidt a 2047] @ io (pic_remap 32 40 \<lparr>io = []\<rparr>) @ (td @ te)"
    using f(5) td te by simp
  have "\<exists>t1 t2. io ?s3 = t1 @ [Lidt a 2047] @ io (pic_remap 32 40 \<lparr>io = []\<rparr>) @ t2 \<and> crt_only t1 \<and> crt_only t2"
    by (rule exI [of _ "io boot_banner"], rule exI [of _ "td @ te"]) (use io3 boot_banner_facts td te in simp)
  then show ?thesis
    using kernel_boot_from_banner [of h a] kstate_more_fields [OF m3] f terminal_write_fb_inv by auto
qed

lemma fg_step_idle:
  "ib s = ibuf_init \<Longrightarrow> fg_step (s, Reading buf count n) = Inr (s, Reading buf count n)"
  by (simp add: fg_step_def getc_empty ibuf_init_def)

lemma sys_step_inv:
  assumes "sys_step st st'" "sys_inv h a st"
  shows "sys_inv h a st'"
  using assms
proof (induction rule: sys_step.induct)
  case (irq v dev s s' f)
  then show ?case
    using interrupt_handler_fields [OF irq.hyps] interrupt_handler_fb_inv [OF irq.hyps]
    by (auto simp: sys_inv_def split: fg_state.splits)
next
  case (fg st st')
  then obtain s buf count n where st: "st = (s, Reading buf count n)" and "ib s = ibuf_init"
    by (auto simp: sys_inv_def split: prod.splits fg_state.splits)
  then have "st' = st" using fg.hyps fg_step_idle by simp
  then show ?case using fg.prems by simp
qed

lemma sys_reachable_inv:
  "sys_reachable h a st \<Longrightarrow> sys_inv h a st"
proof (induction rule: sys_reachable.induct)
  case (boot s buf)
  then show ?case using kernel_boot_ok [of h a] by (auto simp: sys_inv_def)
next
  case (step st st')
  then show ?case by (blast intro: sys_step_inv)
qed


text \<open>A reachable state: boot, then the key 'a' (scan code 0x1E) is pressed.\<close>

lemma reachable_after_key:
  "\<exists>s s'. kernel_boot 1 2 kstate_init = Inr s \<and> interrupt_handler 33 0x1E s = Inr s'
     \<and> sys_reachable 1 2 (s', Reading (replicate 256 0) 0 0)"
proof -
  obtain s where boot: "kernel_boot 1 2 kstate_init = Inr s"
    using kernel_boot_ok [of 1 2] by blast
  obtain s1 where k: "keyboard_isr 0x1E s = Inr s1"
    by (auto simp: keyboard_isr_cases Let_def sc_ascii_def)
  then have irq: "interrupt_handler 33 0x1E s = Inr (s1\<lparr>io := io s1 @ [Outb 0x20 0x20]\<rparr>)"
    by (simp add: interrupt_handler_33)
  have "sys_reachable 1 2 (s, Reading (replicate 256 0) 0 0)"
    using boot by (rule sys_reachable.boot) simp
  then have "sys_reachable 1 2 (s1\<lparr>io := io s1 @ [Outb 0x20 0x20]\<rparr>, Reading (replicate 256 0) 0 0)"
    using irq by (blast intro: sys_reachable.step sys_step.irq)
  then show ?thesis using boot irq by blast
qed

subsection \<open>The controllers' programming in reachable states\<close>

lemma interrupt_handler_neutral:
  assumes "interrupt_handler v dev s = Inr s'"
  shows "pic_replay_from ms (io s') = pic_replay_from ms (io s)"
proof (cases "v = 33")
  case False
  then show ?thesis using assms by (simp add: interrupt_handler_other)
next
  case True
  obtain s1 where k: "keyboard_isr dev s = Inr s1" and s': "s' = s1\<lparr>io := io s1 @ [Outb 0x20 0x20]\<rparr>"
    using assms True by (auto simp: interrupt_handler_33 split: sum.splits)
  let ?s0 = "s\<lparr>io := io s @ [Inb 0x60 dev]\<rparr>"
  have "\<exists>t. io s1 = io ?s0 @ t \<and> crt_only t"
  proof (cases "128 \<le> unat dev \<or> \<not> (unat dev < 58 \<and> sc_ascii ! unat dev \<noteq> 0)")
    case True
    then have "s1 = ?s0" using k by (auto simp: keyboard_isr_cases Let_def split: if_splits)
    then show ?thesis by (intro exI [of _ "[]"]) simp
  next
    case False
    then have "s1 = fb_write_char (sc_ascii ! unat dev) ?s0"
      using k by (auto simp: keyboard_isr_cases Let_def terminal_put_def)
    then show ?thesis using fb_write_char_crt by blast
  qed
  then obtain t where t: "io s1 = io s @ [Inb 0x60 dev] @ t" "crt_only t" by auto
  have "\<forall>e \<in> set ([Inb 0x60 dev] @ t @ [Outb 0x20 0x20]). pic_neutral e"
    using crt_only_neutral [OF t(2)] by (auto simp: pic_neutral_def)
  then show ?thesis using s' t(1) pic_replay_from_neutral by simp
qed

lemma sys_reachable_pic:
  "sys_reachable h a st \<Longrightarrow> pic_replay (io (fst st)) = (Ready 32 4 1 0, Ready 40 2 1 0)"
proof (induction rule: sys_reachable.induct)
  case (boot s buf)
  obtain t1 t2 where io: "io s = t1 @ [Lidt a 2047] @ io (pic_remap 32 40 \<lparr>io = []\<rparr>) @ t2"
    and c: "crt_only t1" "crt_only t2"
    using kernel_boot_ok [of h a] boot.hyps(1) by auto
  have r: "pic_replay_from ms (io (pic_remap 32 40 \<lparr>io = []\<rparr>)) = (Ready 32 4 1 0, Ready 40 2 1 0)" for ms
    using pic_remap_replay [of ms "\<lparr>io = []\<rparr>" 32 40] by simp
  show ?case
    using io r pic_replay_from_neutral [OF crt_only_neutral [OF c(1)]]
      pic_replay_from_neutral [OF crt_only_neutral [OF c(2)]]
    by (simp add: pic_replay_from_def)
next
  case (step st st')
  from step.hyps(2) show ?case
  proof (cases rule: sys_step.cases)
    case (irq v dev s s' f)
    then show ?thesis using step.IH interrupt_handler_neutral [OF irq(3), of "(Uninit, Uninit)"] by simp
  next
    case fg
    obtain s buf count n where st: "st = (s, Reading buf count n)" by (cases st; case_tac b) auto
    have "ib s = ibuf_init"
      using sys_reachable_inv [OF step.hyps(1)] st by (simp add: sys_inv_def)
    then show ?thesis using fg st fg_step_idle step.IH by simp
  qed
qed

subsection \<open>Keys and the screen\<close>

lemma tty_abs_io [simp]: "tty_abs (s\<lparr>io := t\<rparr>) = tty_abs s"
  by (simp add: tty_abs_def)

lemma key_step:
  assumes "sys_reachable h a (s, f)" "unat sc < 58 \<or> 128 \<le> unat sc"
  shows "\<exists>s'. interrupt_handler 33 sc s = Inr s' \<and> sys_reachable h a (s', f) \<and> ib s' = ib s
           \<and> tty_abs s' = (case decode sc of None \<Rightarrow> tty_abs s | Some c \<Rightarrow> tty_put c (tty_abs s))"
proof -
  let ?s1 = "s\<lparr>io := io s @ [Inb 0x60 sc]\<rparr>"
  have inv: "fb_inv ?s1"
    using sys_reachable_inv [OF assms(1)] by (auto simp: sys_inv_def split: fg_state.splits)
  have "\<exists>s2. keyboard_isr sc s = Inr s2
          \<and> tty_abs s2 = (case decode sc of None \<Rightarrow> tty_abs s | Some c \<Rightarrow> tty_put c (tty_abs s))"
  proof (cases "128 \<le> unat sc \<or> sc_ascii ! unat sc = 0")
    case True
    then have "keyboard_isr sc s = Inr ?s1" "decode sc = None"
      using assms(2) by (auto simp: keyboard_isr_cases decode_def sc_ascii_length Let_def)
    then show ?thesis by simp
  next
    case False
    then have "keyboard_isr sc s = Inr (fb_write_char (sc_ascii ! unat sc) ?s1)"
      "decode sc = Some (sc_ascii ! unat sc)"
      using assms(2) by (auto simp: keyboard_isr_cases decode_def sc_ascii_length Let_def terminal_put_def)
    then show ?thesis using fb_write_char_refines [OF inv] by simp
  qed
  then obtain s2 where k: "keyboard_isr sc s = Inr s2"
    and t: "tty_abs s2 = (case decode sc of None \<Rightarrow> tty_abs s | Some c \<Rightarrow> tty_put c (tty_abs s))"
    by blast
  let ?s' = "s2\<lparr>io := io s2 @ [Outb 0x20 0x20]\<rparr>"
  have ih: "interrupt_handler 33 sc s = Inr ?s'" using k by (simp add: interrupt_handler_33)
  have "sys_reachable h a (?s', f)" using sys_reachable.step [OF assms(1) sys_step.irq [OF ih]] .
  then show ?thesis using ih t interrupt_handler_fields [OF ih] by auto
qed

lemma tty_write_Cons: "c \<noteq> 0 \<Longrightarrow> tty_write (c # cs) t = tty_write cs (tty_put c t)"
  by (simp add: tty_write_def)

lemma decode_nonzero: "decode sc = Some c \<Longrightarrow> c \<noteq> 0"
  by (auto simp: decode_def split: if_splits)

end
