(* ===== verification/Idt_Layout.thy ===== *)
theory Idt_Layout
  imports Interrupts
begin

text \<open>
  The memory image of the interrupt descriptor table.  \<^verbatim>\<open>src/include/interrupts.h\<close>
  declares \<open>struct IDTDescriptor\<close> and \<open>struct IDT\<close> \<open>__attribute__((packed))\<close>: the
  fields lie in declaration order with no padding, each integer little-endian (i386).
  \<open>idt_descriptor_bytes\<close> and \<open>idt_reg_bytes\<close> are these layouts, \<open>idt_image\<close> the
  bytes of the array \<open>idt[256]\<close> of \<^verbatim>\<open>src/kernel/interrupts.c\<close>.  The other side is the
  processor: \<open>lidt\<close> reads a 6-byte register image (\<open>decode_idt_reg\<close>) and, on
  interrupt \<open>n\<close>, checks \<open>8 n + 7 \<le> limit\<close> and reads the 8-byte gate at offset \<open>8 n\<close>
  (\<open>cpu_fetch_gate\<close>, \<open>decode_descriptor\<close>), as the Intel SDM vol. 3, 6.10-6.11,
  describes.  The lemmas show that the C layout and the processor's reading agree, so that
  after \<open>interrupts_install_idt\<close> the processor finds exactly the table the C code built.
\<close>

definition le16 :: "u16 \<Rightarrow> u8 list" where
  "le16 w = [ucast w, ucast (drop_bit 8 w)]"

definition le32 :: "u32 \<Rightarrow> u8 list" where
  "le32 w = [ucast w, ucast (drop_bit 8 w), ucast (drop_bit 16 w), ucast (drop_bit 24 w)]"

definition idt_descriptor_bytes :: "idt_descriptor \<Rightarrow> u8 list" where
  "idt_descriptor_bytes d =
     le16 (offset_low d) @ le16 (selector d) @ [zero d, type_attr d] @ le16 (offset_high d)"

definition idt_reg_bytes :: "idt_reg \<Rightarrow> u8 list" where
  "idt_reg_bytes r = le16 (limit r) @ le32 (base r)"

definition idt_image :: "idt_descriptor list \<Rightarrow> u8 list" where
  "idt_image ds = concat (map idt_descriptor_bytes ds)"

text \<open>The processor's reading of the bytes.\<close>

definition from_le16 :: "u8 \<Rightarrow> u8 \<Rightarrow> u16" where
  "from_le16 lo hi = push_bit 8 (ucast hi) OR ucast lo"

definition decode_descriptor :: "u8 list \<Rightarrow> idt_descriptor" where
  "decode_descriptor bs =
     \<lparr>offset_low = from_le16 (bs ! 0) (bs ! 1), selector = from_le16 (bs ! 2) (bs ! 3),
      zero = bs ! 4, type_attr = bs ! 5, offset_high = from_le16 (bs ! 6) (bs ! 7)\<rparr>"

definition from_le32 :: "u8 \<Rightarrow> u8 \<Rightarrow> u8 \<Rightarrow> u8 \<Rightarrow> u32" where
  "from_le32 b0 b1 b2 b3 =
     push_bit 24 (ucast b3) OR push_bit 16 (ucast b2) OR push_bit 8 (ucast b1) OR ucast b0"

definition decode_idt_reg :: "u8 list \<Rightarrow> idt_reg" where
  "decode_idt_reg bs = \<lparr>limit = from_le16 (bs ! 0) (bs ! 1), base = from_le32 (bs ! 2) (bs ! 3) (bs ! 4) (bs ! 5)\<rparr>"

definition cpu_fetch_gate :: "u8 list \<Rightarrow> idt_reg \<Rightarrow> nat \<Rightarrow> idt_descriptor option" where
  "cpu_fetch_gate mem r n =
     (if 8 * n + 7 \<le> unat (limit r) then Some (decode_descriptor (take 8 (drop (8 * n) mem))) else None)"

subsection \<open>Lemmas\<close>

lemma from_le16_le16: "from_le16 (ucast w) (ucast (drop_bit 8 w)) = (w :: u16)"
  unfolding from_le16_def
  by (rule bit_word_eqI) (auto simp: bit_simps)

lemma from_le32_le32:
  "from_le32 (ucast w) (ucast (drop_bit 8 w)) (ucast (drop_bit 16 w)) (ucast (drop_bit 24 w)) = (w :: u32)"
  unfolding from_le32_def
  by (rule bit_word_eqI)
     (case_tac "n < 8"; case_tac "n < 16"; case_tac "n < 24"; auto simp: bit_simps)

lemma idt_descriptor_bytes_length [simp]: "length (idt_descriptor_bytes d) = 8"
  by (simp add: idt_descriptor_bytes_def le16_def)

lemma decode_descriptor_bytes: "decode_descriptor (idt_descriptor_bytes d) = d"
  by (simp add: decode_descriptor_def idt_descriptor_bytes_def le16_def from_le16_le16)

lemma idt_image_length: "length (idt_image ds) = 8 * length ds"
  by (induction ds) (auto simp: idt_image_def)

lemma idt_image_slot:
  "n < length ds \<Longrightarrow> take 8 (drop (8 * n) (idt_image ds)) = idt_descriptor_bytes (ds ! n)"
proof (induction ds arbitrary: n)
  case Nil
  then show ?case by simp
next
  case (Cons d ds)
  then show ?case by (cases n) (auto simp: idt_image_def)
qed

lemma install_idt_layout:
  assumes "interrupts_install_idt h a s = Inr s'" "length (idt s) = 256"
  shows "idt s' = (idt s)[33 := idt_gate h]" "idt_ptr s' = \<lparr>limit = 2047, base = a\<rparr>"
  using assms interrupts_install_idt_ok [OF assms(2), of h a]
  by (auto simp: pic_remap_def load_idt_def)

subsection \<open>Properties\<close>

text \<open>
  C30. The packed C layout matches the processor's gate format: after interrupts_install_idt
  on a 256-entry table, the processor's fetch of any vector below 256 from the byte image of
  idt, bounded by the loaded limit 2047, yields exactly the descriptor the C code stored;
  vectors from 256 on fail the limit check; vector 33 dispatches to the handler address.
\<close>

theorem cpu_fetch_after_install:
  assumes "interrupts_install_idt h a s = Inr s'" "length (idt s) = 256"
  shows "(\<forall>n < 256. cpu_fetch_gate (idt_image (idt s')) (idt_ptr s') n = Some (idt s' ! n))
         \<and> (\<forall>n \<ge> 256. cpu_fetch_gate (idt_image (idt s')) (idt_ptr s') n = None)
         \<and> map_option gate_address (cpu_fetch_gate (idt_image (idt s')) (idt_ptr s') 33) = Some h"
proof -
  have len: "length (idt s') = 256" using install_idt_layout(1) [OF assms] assms(2) by simp
  have fetch: "cpu_fetch_gate (idt_image (idt s')) (idt_ptr s') n = Some (idt s' ! n)" if "n < 256" for n
    using that len install_idt_layout(2) [OF assms]
    by (simp add: cpu_fetch_gate_def idt_image_slot decode_descriptor_bytes)
  have none: "cpu_fetch_gate (idt_image (idt s')) (idt_ptr s') n = None" if "256 \<le> n" for n
    using that install_idt_layout(2) [OF assms] by (simp add: cpu_fetch_gate_def)
  have "idt s' ! 33 = idt_gate h" using install_idt_layout(1) [OF assms] assms(2) by simp
  then show ?thesis using fetch none fetch [of 33] by (simp add: gate_address_split)
qed

lemma cpu_fetch_after_install_witness:
  "\<exists>s'. interrupts_install_idt 0x101234 0x2000 kstate_init = Inr s'
     \<and> map_option gate_address (cpu_fetch_gate (idt_image (idt s')) (idt_ptr s') 33) = Some 0x101234
     \<and> cpu_fetch_gate (idt_image (idt s')) (idt_ptr s') 256 = None"
proof -
  obtain s' where s': "interrupts_install_idt 0x101234 0x2000 kstate_init = Inr s'"
    using interrupts_install_idt_ok [of kstate_init] by (simp add: kstate_init_def)
  have l: "length (idt kstate_init) = 256" by (simp add: kstate_init_def)
  show ?thesis using conjunct2 [OF cpu_fetch_after_install [OF s' l]] s' by (intro exI [of _ s']) auto
qed

text \<open>
  C31. Layout roundtrip: decoding the packed little-endian image of a descriptor (8 bytes)
  or of the table register (6 bytes) gives back the C structure, whatever its field values.
\<close>

theorem layout_roundtrip:
  "decode_descriptor (idt_descriptor_bytes d) = d \<and> decode_idt_reg (idt_reg_bytes r) = r
   \<and> length (idt_descriptor_bytes d) = 8 \<and> length (idt_reg_bytes r) = 6"
  by (simp add: decode_descriptor_bytes decode_idt_reg_def idt_reg_bytes_def le16_def le32_def
      from_le16_le16 from_le32_le32)

end
