(* ===== verification/Spec2Isabelle.thy ===== *)
theory Spec2Isabelle
  imports System Idt_Layout
begin

text \<open>
  \<^bold>\<open>The keyboard input pipeline of a small x86 kernel, modelled in Isabelle/HOL.\<close>

  The program (\<^verbatim>\<open>src/\<close>) is the input path of a bare-metal kernel: an interrupt from the
  keyboard runs \<open>interrupt_handler\<close> (\<^verbatim>\<open>kernel/interrupts.c\<close>), which calls
  \<open>keyboard_isr\<close> (\<^verbatim>\<open>kernel/keyboard.c\<close>) and acknowledges the 8259 controller
  (\<open>pic_acknowledge\<close>, \<^verbatim>\<open>kernel/pic.c\<close>); the foreground loop \<open>terminal_run\<close>
  (\<^verbatim>\<open>kernel/terminal.c\<close>) reads lines with \<open>readline\<close> from the ring buffer of
  \<^verbatim>\<open>kernel/input_buffer.c\<close> and echoes them through the VGA driver of
  \<^verbatim>\<open>kernel/fb.c\<close>.  \<open>kernel_main\<close> (\<^verbatim>\<open>kernel/kernel.c\<close>) initialises the screen, installs
  the descriptor table and remaps the controllers (\<open>interrupts_install_idt\<close>), then runs
  \<open>terminal_run\<close> forever.  Port I/O is \<^verbatim>\<open>include/io.h\<close>.

  \<^bold>\<open>Theories.\<close>  Each C file is one theory; the state of the machine is a chain of
  extensible records, one extension per file's globals:
  \<^item> \<open>Prelude\<close>: machine types (\<open>u8\<close>, \<open>u16\<close>, \<open>u32\<close>; \<open>char\<close> signed 8-bit, \<open>int\<close>
    unbounded with the ranges that matter proved), undefined behaviour as the value
    \<open>Inl (ArrayIndex a i)\<close> of every array access out of range (\<open>c_load\<close>, \<open>c_store\<close>),
    C's truncating \<open>%\<close> (\<open>c_rem\<close>), shared word and arithmetic lemmas.
  \<^item> \<open>Port_IO\<close> (\<^verbatim>\<open>io.h\<close>): record \<open>hw\<close>, the ordered trace of port transactions
    (\<open>Outb\<close>, \<open>Inb\<close>) and of the table load (\<open>Lidt\<close>); \<open>outb\<close>, \<open>inb\<close> (the device's
    byte is a parameter).
  \<^item> \<open>Input_Buffer\<close> (\<^verbatim>\<open>input_buffer.c\<close>): record \<open>ibuf\<close> (\<open>buffer\<close>, \<open>head\<close>,
    \<open>tail\<close>), \<open>input_put\<close>, \<open>getc_nonblock\<close>, and \<open>readline\<close> as the
    \<^theory_text>\<open>partial_function (option)\<close> \<open>readline_loop\<close>: \<open>None\<close> is the busy-wait that never
    ends; \<open>readline_loop_cases_rule\<close> is its fixpoint induction with one case per branch
    of the loop body, which the line-reader lemmas use.  Abstract specification: a FIFO queue of at most 255 bytes (\<open>q_put\<close>, \<open>q_get\<close>)
    and the abstraction \<open>ib_contents\<close> under the invariant \<open>ib_inv\<close>.
  \<^item> \<open>Pic\<close> (\<^verbatim>\<open>pic.c\<close>): \<open>pic_remap\<close>, \<open>pic_acknowledge\<close> as port-write sequences.
  \<^item> \<open>Pic_Device\<close> (no code: the 8259A data sheet): the controllers' initialisation state
    machine (\<open>pic_port_write\<close>, keeping ICW2 to ICW4 and the mask), run over a port trace
    (\<open>pic_replay\<close>), and the vector a request line is delivered as (\<open>irq_vector\<close>:
    only in 8086 mode, never from a line declared a cascade input, and from the secondary
    only when the primary declares line 2 a cascade input and the secondary's identity is
    2, the PC/AT wiring); the contract \<^verbatim>\<open>pic.c\<close> is checked against.
  \<^item> \<open>Framebuffer\<close> (\<^verbatim>\<open>fb.c\<close>): record \<open>fb\<close> (cursor and video memory as a map from
    byte offsets), \<open>fb_move_cursor\<close>, \<open>fb_clear\<close> (its loop \<open>fb_clear_loop\<close> terminates
    by the measure 2000 - i), \<open>fb_write_char\<close>; invariant \<open>fb_inv\<close> (cursor on screen).
  \<^item> \<open>Terminal\<close> (\<^verbatim>\<open>terminal.c\<close>): record \<open>console\<close> (screen and ring buffer),
    \<open>terminal_write\<close> (up to the NUL, or the end of the list), \<open>terminal_put\<close>, \<open>terminal_init\<close>, one iteration
    of \<open>terminal_run\<close>'s loop (\<open>terminal_run_round\<close>) and the whole of \<open>terminal_run\<close>
    (\<open>terminal_run_loop\<close>, a \<^theory_text>\<open>partial_function (option)\<close>); \<open>screen_text\<close>
    reads characters back from video memory; its abstract specification is a teletype over
    linear screen positions (\<open>tty_put\<close>, \<open>tty_write\<close>, abstraction \<open>tty_abs\<close>).
  \<^item> \<open>Keyboard\<close> (\<^verbatim>\<open>keyboard.c\<close>): \<open>sc_ascii\<close> (58 entries) and \<open>keyboard_isr\<close>;
    \<open>decode\<close> is the spec's decoder contract over the code's table.
  \<^item> \<open>Interrupts\<close> (\<^verbatim>\<open>interrupts.c\<close>, \<^verbatim>\<open>interrupts.h\<close>): records \<open>idt_descriptor\<close>,
    \<open>idt_reg\<close>, the kernel state \<open>kstate\<close> (console plus \<open>idt\<close>, \<open>idt_ptr\<close>), its
    power-on value \<open>kstate_init\<close>, \<open>set_idt\<close>, \<open>interrupts_install_idt\<close>,
    \<open>interrupt_handler\<close>.  The assembly routine \<open>load_idt\<close> is the \<open>Lidt\<close> event
    (modelled from the spec); the addresses of \<open>interrupt_handler_33\<close> and of \<open>idt\<close>
    are parameters.
  \<^item> \<open>Idt_Layout\<close> (\<^verbatim>\<open>interrupts.h\<close>): the packed little-endian byte images of a
    descriptor and of the table register (\<open>idt_descriptor_bytes\<close>, \<open>idt_reg_bytes\<close>,
    \<open>idt_image\<close>) and, from the processor manual, how the processor reads them
    (\<open>decode_descriptor\<close>, \<open>decode_idt_reg\<close>, \<open>cpu_fetch_gate\<close> with its limit check).
  \<^item> \<open>System\<close> (\<^verbatim>\<open>kernel.c\<close>): \<open>kernel_boot\<close> (\<open>kernel_main\<close> up to its loop and the
    prompt of \<open>terminal_run\<close>), the foreground step \<open>fg_step\<close> (one iteration of
    \<open>readline\<close>'s loop inside \<open>terminal_run\<close>, with the echo when a line completes),
    the interleaving \<open>sys_step\<close> of interrupt handlers (any vector, any scan code, each
    run to completion) with foreground steps, and \<open>sys_reachable\<close> from power-on; the
    invariant \<open>sys_inv\<close> holds in every reachable state (rule induction); \<open>key_run\<close>
    is a run of keyboard interrupts.
  \<^item> \<open>Spec2Isabelle\<close> (this theory): the properties that span the components.

  \<^bold>\<open>What is proved.\<close>  The ring buffer refines the bounded queue (C1, C2), keeps FIFO
  order (C3) and drops the newest byte on overflow (C4); \<open>readline\<close> returns exactly when
  a newline is buffered, with the truncated line (C5 to C7); the sentinel \<open>-1\<close> collides
  with the byte 0xFF (C8) and a zero-capacity \<open>out\<close> is overrun (C9).  Keyboard decoding
  (C10) and its out-of-table read for codes 58 to 127 (C11); the controller protocol (C12,
  C13); descriptor-table installation, its address roundtrip and its ordering before the
  remap (C14 to C16, C23); the dispatcher (C17, C22); the screen driver (C18 to C21); the
  terminal's echo (C28); \<open>readline\<close> stays within \<open>out\<close> when \<open>1 \<le> max \<le>\<close> its
  length (C29); the
  packed C layout of the table matches the processor's reading of it, and its limit admits
  exactly the 256 vectors (C30), with a byte-level roundtrip (C31); \<open>terminal_write\<close>
  refines the abstract teletype for any string (C36).  Composing keyboard, terminal and screen:
  from any reachable state a run of keyboard interrupts (\<open>key_run\<close>) stays reachable,
  leaves the ring buffer untouched and is, on the screen's abstraction, the teletype writing
  the characters the spec's decoder (\<open>decode\<close>) yields (C37).  Across components (C24 to C27): from power-on, whatever keys are
  pressed and whatever interrupts arrive, the ring buffer stays empty and \<open>readline\<close> never
  returns, because \<open>keyboard_isr\<close> sends characters to the screen and nothing calls
  \<open>input_put\<close>; the descriptor table is never changed after installation; the cursor
  never leaves the screen; boot writes the screen, loads the table, then programs the
  controllers; the first prompt appears twice, "> > " (C32); in every reachable state a
  key press is a system step that prints its character at the cursor and acknowledges the
  controller after the screen writes (C33).  Against the 8259A contract: \<open>pic_remap 32 40\<close>
  programs both controllers, whatever their prior state, in 8086 mode with bases 32 and 40,
  the cascade on line 2 of the primary (ICW3 4) with the secondary's identity 2 (ICW3 2),
  and no mask, and the EOIs keep it (C34); in every reachable state the keyboard's line reaches vector 33 and
  its handler, while every other line is enabled and reaches a not-present descriptor (C35).

  \<^bold>\<open>Bounds, fuel and termination.\<close>  No fuel is used.  \<open>readline_loop\<close> is a partial
  function: its termination when a newline is buffered is proved as \<open>Some\<close> (C5), its
  non-termination on an empty buffer as \<open>None\<close> (C6).  \<open>fb_clear_loop\<close> terminates by a
  measure.  \<open>terminal_run\<close>'s endless loop is the partial function \<open>terminal_run_loop\<close>;
  one round of it is \<open>terminal_run_round\<close> (C28).  \<open>kernel_main\<close>'s loop, interleaved
  with interrupts, is the relation \<open>sys_step\<close>, whose foreground step \<open>fg_step\<close> is one
  iteration of \<open>readline\<close>'s loop.

  \<^bold>\<open>Not modelled.\<close>  The assembly is outside \<^verbatim>\<open>src/\<close> and, in the spec, a collaborator
  ("install vector, jump to handler"): \<open>load_idt\<close> is only its \<open>Lidt\<close> event and the entry
  stub only its call of \<open>interrupt_handler\<close> (the \<open>irq\<close> rule of \<open>sys_step\<close>); register
  saving, \<open>iret\<close> and enabling interrupts are not modelled, and the model lets any
  interrupt, with any vector, arrive after boot (an over-approximation: vectors without a
  gate would fault instead).  No code under \<^verbatim>\<open>src/\<close> enables interrupts (there is no
  \<open>sti\<close>), so when they start to arrive is outside the model.  The contents of video memory before
  \<open>fb_clear\<close>, and the physical effect of port writes beyond their order and values.  The
  header \<^verbatim>\<open>types.h\<close> (only the integer types it names are used).
  \<open>terminal_write\<close> takes its argument as a list and stops at the first NUL or at the
  list's end; reading past the end of an unterminated C array is undefined behaviour that
  this model does not show.  The only array the code passes to it whose contents are not a
  string literal is \<open>terminal_run\<close>'s \<open>buffer\<close>, filled by \<open>readline\<close>, which writes
  the terminator inside the array whenever \<open>1 \<le> max \<le>\<close> its length (C29; there
  \<open>max = 256\<close> and the array has 256 bytes), so the over-read is not reachable from the code.
\<close>

section \<open>Properties across components\<close>

text \<open>
  C24. Typed keys never reach readline: in every state reachable from power-on, under any
  interleaving of interrupts (any vector, any scan code) with the foreground loop, the input
  ring buffer is empty, readline has returned no line and holds no character, and the next
  foreground step takes the busy-wait branch and changes nothing.
\<close>

theorem keys_never_reach_readline:
  assumes "sys_reachable h a (s, Reading buf count n)"
  shows "ib_contents (ib s) = [] \<and> n = 0 \<and> count = 0
         \<and> fg_step (s, Reading buf count n) = Inr (s, Reading buf count n)"
proof -
  have "sys_inv h a (s, Reading buf count n)" using assms by (rule sys_reachable_inv)
  then have "ib s = ibuf_init" "n = 0" "count = 0" by (simp_all add: sys_inv_def)
  then show ?thesis by (simp add: ibuf_init_contents fg_step_idle)
qed

lemma keys_never_reach_readline_witness:
  "\<exists>s. sys_reachable 1 2 (s, Reading (replicate 256 0) 0 0) \<and> ib_contents (ib s) = []
      \<and> fg_step (s, Reading (replicate 256 0) 0 0) = Inr (s, Reading (replicate 256 0) 0 0)"
  using reachable_after_key keys_never_reach_readline by blast

text \<open>
  C25. The descriptor table is never changed after installation: in every reachable state
  entry 33 holds the handler's gate (its address read back is the handler's), every other
  entry is zero, and the table register holds limit 2047 and the table's address.
\<close>

theorem idt_unchanged_after_boot:
  assumes "sys_reachable h a (s, f)"
  shows "idt s = boot_idt h \<and> idt_ptr s = \<lparr>limit = 2047, base = a\<rparr>
         \<and> gate_address (idt s ! 33) = h \<and> (\<forall>i < 256. i \<noteq> 33 \<longrightarrow> idt s ! i = idt_descriptor_zero)"
proof -
  have "sys_inv h a (s, f)" using assms by (rule sys_reachable_inv)
  then have "idt s = boot_idt h" "idt_ptr s = \<lparr>limit = 2047, base = a\<rparr>"
    by (auto simp: sys_inv_def split: fg_state.splits)
  then show ?thesis by (simp add: boot_idt_def gate_address_split)
qed

lemma idt_unchanged_after_boot_witness:
  "\<exists>s. sys_reachable 1 2 (s, Reading (replicate 256 0) 0 0) \<and> gate_address (idt s ! 33) = 1
      \<and> idt s ! 32 = idt_descriptor_zero"
  using reachable_after_key idt_unchanged_after_boot by fastforce

text \<open>
  C26. The cursor never leaves the screen: in every reachable state the cursor row is in
  0..24 and the column in 0..79, whatever the keyboard interrupts print.
\<close>

theorem cursor_always_on_screen:
  assumes "sys_reachable h a (s, f)"
  shows "fb_inv s"
proof -
  have "sys_inv h a (s, f)" using assms by (rule sys_reachable_inv)
  then show ?thesis by (auto simp: sys_inv_def split: fg_state.splits)
qed

lemma cursor_always_on_screen_witness:
  "\<exists>s. sys_reachable 1 2 (s, Reading (replicate 256 0) 0 0) \<and> fb_inv s"
  using reachable_after_key cursor_always_on_screen by blast

text \<open>
  C27. Boot order: kernel_main from power-on succeeds; its port trace is writes to the CRT
  controller only, then the load of the descriptor table, then the controllers' remap
  sequence, then CRT writes only; it leaves the ring buffer empty, the table installed and
  the cursor on the screen.
\<close>

theorem kernel_boot_sequence:
  "\<exists>s t1 t2. kernel_boot h a kstate_init = Inr s
     \<and> io s = t1 @ [Lidt a 2047] @ io (pic_remap 32 40 \<lparr>io = []\<rparr>) @ t2 \<and> crt_only t1 \<and> crt_only t2
     \<and> ib_contents (ib s) = [] \<and> idt s = boot_idt h \<and> fb_inv s"
proof -
  obtain s where "kernel_boot h a kstate_init = Inr s" "ib s = ibuf_init" "idt s = boot_idt h" "fb_inv s"
    and "\<exists>t1 t2. io s = t1 @ [Lidt a 2047] @ io (pic_remap 32 40 \<lparr>io = []\<rparr>) @ t2 \<and> crt_only t1 \<and> crt_only t2"
    using kernel_boot_ok [of h a] by blast
  then show ?thesis by (simp add: ibuf_init_contents)
qed

text \<open>
  C32. The screen after boot: kernel_main leaves "Welcome to my OS!", "MyOS Booting..." and
  "Ready." on rows 0-2 and the cursor on row 3 after "> > ": kernel_main prints the prompt
  "> " after "Ready." and terminal_run prints it again before its loop, so the first prompt
  appears twice.
\<close>

theorem boot_screen:
  "\<exists>s. kernel_boot h a kstate_init = Inr s \<and> cursor_row s = 3 \<and> cursor_col s = 4
     \<and> screen_text s 0 17 = bytes ''Welcome to my OS!'' \<and> screen_text s 80 15 = bytes ''MyOS Booting...''
     \<and> screen_text s 160 6 = bytes ''Ready.'' \<and> screen_text s 240 4 = bytes ''> > ''"
proof -
  let ?W = "bytes ''Welcome to my OS!''" and ?M = "bytes ''MyOS Booting...''"
    and ?R = "bytes ''Ready.''" and ?P = "bytes ''> ''"
  have b: "0 \<notin> set ?R" "10 \<notin> set ?R" "length ?R = 6" "0 \<notin> set ?P" "10 \<notin> set ?P" "length ?P = 2"
    "?P @ ?P = bytes ''> > ''"
    by (simp_all add: bytes_def)
  let ?S3 = "pic_remap 32 40 (load_idt \<lparr>limit = 2047, base = a\<rparr>
               (boot_banner\<lparr>idt := boot_idt h, idt_ptr := \<lparr>limit = 2047, base = a\<rparr>\<rparr>))"
  have s3: "fb_inv ?S3" "cursor_row ?S3 = 2" "cursor_col ?S3 = 0" "screen_text ?S3 80 15 = ?M"
    "screen_text ?S3 0 17 = ?W"
    using boot_banner_facts by (simp_all add: fb_inv_def screen_text_def load_idt_def pic_remap_def)
  let ?S4 = "terminal_write (?R @ [10]) ?S3"
  have s4: "fb_inv ?S4" "cursor_row ?S4 = 3" "cursor_col ?S4 = 0" "screen_text ?S4 160 6 = ?R"
    "screen_text ?S4 80 15 = ?M" "screen_text ?S4 0 17 = ?W"
    using terminal_write_line [OF s3(1) s3(3), of ?R] s3 b by (simp_all add: fb_consts)
  let ?S5 = "terminal_write ?P ?S4"
  have r5: "cursor_row ?S5 = 3" "cursor_col ?S5 = 2" "screen_text ?S5 240 2 = ?P"
    using terminal_write_row [OF s4(1) b(4,5)] s4 b by (simp_all add: fb_consts)
  have f5: "screen_text ?S5 p n = screen_text ?S4 p n" if "p + int n \<le> 240" for p n
    using terminal_write_row_frame [OF s4(1) b(4,5)] s4 b that by (simp add: fb_consts)
  have i5: "fb_inv ?S5" using terminal_write_fb_inv [OF s4(1)] .
  let ?S6 = "terminal_write ?P ?S5"
  have r6: "cursor_row ?S6 = 3" "cursor_col ?S6 = 4" "screen_text ?S6 242 2 = ?P"
    using terminal_write_row [OF i5 b(4,5)] r5 b by (simp_all add: fb_consts)
  have f6: "screen_text ?S6 p n = screen_text ?S5 p n" if "p + int n \<le> 242" for p n
    using terminal_write_row_frame [OF i5 b(4,5)] r5 b that by (simp add: fb_consts)
  have row3: "screen_text ?S6 240 4 = bytes ''> > ''"
    using screen_text_append [of ?S6 240 2 2] f6 [of 240 2] r5 r6 b by simp
  have boot: "kernel_boot h a kstate_init = Inr ?S6"
    using kernel_boot_from_banner [of h a] b(1) by (simp add: terminal_write_append)
  show ?thesis
    using boot r6 row3 f6 [of 160 6] f6 [of 80 15] f6 [of 0 17] f5 [of 160 6] f5 [of 80 15] f5 [of 0 17] s4
    by simp
qed

text \<open>
  C33. Key presses reach the screen: in every reachable state, the interrupt for a press
  code whose table entry is a printable byte (not 0, not newline) is a step of the system; it
  reads port 0x60, stores the character at the cursor's cell, advances the cursor by one
  cell (wrapping at the end of the screen), and ends with the end-of-interrupt command to
  the primary controller, after only CRT writes.
\<close>

theorem key_press_displayed:
  assumes "sys_reachable h a (s, f)" "unat sc < 58" "sc_ascii ! unat sc \<notin> {0, 10}"
  shows "\<exists>s'. sys_step (s, f) (s', f) \<and> interrupt_handler 33 sc s = Inr s'
     \<and> vga s' (2 * cursor_pos s) = sc_ascii ! unat sc
     \<and> cursor_pos s' = (cursor_pos s + 1) mod 2000
     \<and> (\<exists>t. io s' = io s @ [Inb 0x60 sc] @ t @ [Outb 0x20 0x20] \<and> crt_only t)"
proof -
  let ?c = "sc_ascii ! unat sc"
  let ?s1 = "s\<lparr>io := io s @ [Inb 0x60 sc]\<rparr>"
  let ?s2 = "fb_write_char ?c ?s1"
  have inv: "fb_inv ?s1"
    using sys_reachable_inv [OF assms(1)] by (auto simp: sys_inv_def split: fg_state.splits)
  have isr: "keyboard_isr sc s = Inr ?s2"
    using assms(2,3) by (simp add: keyboard_isr_cases Let_def terminal_put_def)
  let ?s' = "?s2\<lparr>io := io ?s2 @ [Outb 0x20 0x20]\<rparr>"
  have ih: "interrupt_handler 33 sc s = Inr ?s'" using isr by (simp add: interrupt_handler_33)
  have cell: "vga ?s' (2 * cursor_pos s) = ?c"
    using assms(3) by (simp add: fb_write_char_cells)
  have pos: "cursor_pos ?s' = (cursor_pos s + 1) mod 2000"
    using fb_write_char_cursor [OF inv, of ?c] assms(3) by simp
  obtain t where t: "io ?s2 = io ?s1 @ t" "crt_only t" using fb_write_char_crt by blast
  show ?thesis
    using ih cell pos t sys_step.irq [OF ih, of f] by auto
qed

lemma key_press_displayed_witness:
  "\<exists>s s'. kernel_boot 1 2 kstate_init = Inr s \<and> interrupt_handler 33 0x1E s = Inr s'
     \<and> vga s' (2 * cursor_pos s) = 97"
proof -
  obtain s where boot: "kernel_boot 1 2 kstate_init = Inr s"
    using kernel_boot_ok [of 1 2] by blast
  have r: "sys_reachable 1 2 (s, Reading (replicate 256 0) 0 0)"
    using sys_reachable.boot [OF boot] by simp
  have "sc_ascii ! unat (0x1E :: u8) = 97" "unat (0x1E :: u8) < 58" by (simp_all add: sc_ascii_def)
  then show ?thesis using key_press_displayed [OF r, of "0x1E"] boot by auto
qed

text \<open>
  C35. Interrupt routing in every reachable state: replaying the port trace through the two
  8259A controllers, both are initialised in 8086 mode with bases 32 and 40, cascaded over
  line 2 of the primary, and no mask; the keyboard's
  line 1 is delivered as vector 33, whose gate leads to the handler; every other line k
  (other than the cascade line 2) is enabled and delivered as vector 32 + k, whose
  descriptor is all zero, i.e. not present.
\<close>

theorem irq_routing_after_boot:
  assumes "sys_reachable h a (s, f)"
  shows "irq_vector (pic_replay (io s)) 1 = Some 33 \<and> gate_address (idt s ! 33) = h
     \<and> (\<forall>k < 16. k \<notin> {1, 2} \<longrightarrow> (\<exists>v. irq_vector (pic_replay (io s)) k = Some v
            \<and> unat v = 32 + k \<and> idt s ! unat v = idt_descriptor_zero))"
proof -
  have p: "pic_replay (io s) = (Ready 32 4 1 0, Ready 40 2 1 0)" using sys_reachable_pic [OF assms] by simp
  have i: "idt s = boot_idt h"
    using sys_reachable_inv [OF assms] by (auto simp: sys_inv_def split: fg_state.splits)
  have u: "unat (32 + of_nat k :: u8) = 32 + k" if "k < 16" for k
  proof -
    have e: "(32 + of_nat k :: u8) = of_nat (32 + k)" by simp
    have "(32 + k) mod 2 ^ LENGTH(8) = 32 + k" using that by simp
    then show ?thesis unfolding e unat_of_nat .
  qed
  have other: "\<exists>v. irq_vector (pic_replay (io s)) k = Some v \<and> unat v = 32 + k \<and> idt s ! unat v = idt_descriptor_zero"
    if "k < 16" "k \<notin> {1, 2}" for k
    using that p i u [OF that(1)] irq_vector_32_40 [of k] by (simp add: boot_idt_def nth_list_update)
  have "irq_vector (pic_replay (io s)) 1 = Some 33" using p irq_vector_32_40 [of 1] by simp
  then show ?thesis using other i by (simp add: boot_idt_def gate_address_split)
qed

lemma irq_routing_after_boot_witness:
  "\<exists>s v. sys_reachable 1 2 (s, Reading (replicate 256 0) 0 0) \<and> irq_vector (pic_replay (io s)) 1 = Some 33
     \<and> irq_vector (pic_replay (io s)) 0 = Some v \<and> idt s ! unat v = idt_descriptor_zero"
proof -
  obtain s where r: "sys_reachable 1 2 (s, Reading (replicate 256 0) 0 0)"
    using reachable_after_key by blast
  note c = irq_routing_after_boot [OF r]
  have "\<exists>v. irq_vector (pic_replay (io s)) 0 = Some v \<and> idt s ! unat v = idt_descriptor_zero"
    using conjunct2 [OF conjunct2 [OF c], rule_format, of 0] by auto
  then show ?thesis using r conjunct1 [OF c] by blast
qed

text \<open>
  C37. Typed keys reach the screen and only the screen: from any reachable state, a run of
  keyboard interrupts with scan codes the table covers (or release codes) is a run of system
  steps that stays reachable; in the abstraction of the screen it is the abstract teletype
  writing the decoded characters in order (release codes and unmapped keys writing nothing),
  and the input ring buffer is unchanged.
\<close>

theorem typed_keys_on_screen:
  assumes "sys_reachable h a (s, f)" "\<forall>sc \<in> set scs. unat sc < 58 \<or> 128 \<le> unat sc"
  shows "\<exists>s'. key_run scs s = Inr s' \<and> sys_reachable h a (s', f) \<and> ib s' = ib s
           \<and> tty_abs s' = tty_write (List.map_filter decode scs) (tty_abs s)"
  using assms
proof (induction scs arbitrary: s)
  case Nil
  then show ?case by (simp add: tty_write_def map_filter_simps)
next
  case (Cons sc scs)
  obtain s1 where s1: "interrupt_handler 33 sc s = Inr s1" "sys_reachable h a (s1, f)" "ib s1 = ib s"
    and t: "tty_abs s1 = (case decode sc of None \<Rightarrow> tty_abs s | Some c \<Rightarrow> tty_put c (tty_abs s))"
    using key_step [OF Cons.prems(1)] Cons.prems(2) by auto
  obtain s' where s': "key_run scs s1 = Inr s'" "sys_reachable h a (s', f)" "ib s' = ib s1"
    "tty_abs s' = tty_write (List.map_filter decode scs) (tty_abs s1)"
    using Cons.IH [OF s1(2)] Cons.prems(2) by auto
  show ?case
    using s1 s' t decode_nonzero [of sc]
    by (cases "decode sc") (auto simp: map_filter_simps tty_write_Cons)
qed

lemma typed_keys_on_screen_witness:
  "\<exists>s s'. kernel_boot 1 2 kstate_init = Inr s \<and> key_run [0x23, 0x97, 0x17] s = Inr s'
     \<and> tty_abs s' = tty_write [104, 105] (tty_abs s)"
proof -
  obtain s where boot: "kernel_boot 1 2 kstate_init = Inr s"
    using kernel_boot_ok [of 1 2] by blast
  have r: "sys_reachable 1 2 (s, Reading (replicate 256 0) 0 0)"
    using sys_reachable.boot [OF boot] by simp
  have "List.map_filter decode [0x23, 0x97, 0x17] = [104, 105]"
    by (simp add: map_filter_simps decode_def sc_ascii_def)
  then show ?thesis
    using typed_keys_on_screen [OF r, of "[0x23, 0x97, 0x17]"] boot by auto
qed

end
